theory Spec2Isabelle
  imports Main "HOL-Library.AList" "HOL-Library.Multiset"
begin

section \<open>The city map: a weighted multigraph with reversible commands\<close>

text \<open>
  The development follows \<^verbatim>\<open>ProgramEngineering/2/2.py\<close>: the class \<^verbatim>\<open>CityMap\<close> (the graph
  store), the six \<^verbatim>\<open>Command\<close> classes, and \<^verbatim>\<open>CommandManager\<close> (undo and redo stacks, the
  history of snapshots, saving and loading).

  A Python \<^verbatim>\<open>dict\<close> keeps its keys in insertion order, and \<^verbatim>\<open>get_cities\<close> and
  \<^verbatim>\<open>get_roads_from_city\<close> return them in that order, so a dictionary is an association
  list here: \<^verbatim>\<open>d[k] = v\<close> is \<open>AList.update\<close> (in place for a key that is there, at the end
  for a new one), \<^verbatim>\<open>del d[k]\<close> is \<open>AList.delete\<close>, and a lookup is \<open>map_of\<close>.
  \<^verbatim>\<open>CityMap\<close> has the single field \<^verbatim>\<open>cities: Dict[str, Dict[str, List[int]]]\<close>; the object is
  represented by the value of that field.
\<close>

subsection \<open>Exceptions\<close>

datatype error = KeyError | ValueError | IndexError | AttributeError | TypeError

subsection \<open>CityMap\<close>

type_synonym neighbors = "(string \<times> int list) list"
type_synonym cities = "(string \<times> neighbors) list"

text \<open>\<^verbatim>\<open>k in d\<close>\<close>

definition has_key :: "'k \<Rightarrow> ('k \<times> 'v) list \<Rightarrow> bool" where
  "has_key k d = (map_of d k \<noteq> None)"

text \<open>
  \<^verbatim>\<open>self.cities[a][b]\<close>, with \<open>None\<close> where either subscript raises \<^verbatim>\<open>KeyError\<close>.
\<close>

definition road :: "cities \<Rightarrow> string \<Rightarrow> string \<Rightarrow> int list option" where
  "road g a b = (case map_of g a of None \<Rightarrow> None | Some nb \<Rightarrow> map_of nb b)"

text \<open>
  \<^verbatim>\<open>self.cities[a][b] = cs\<close> and \<^verbatim>\<open>del self.cities[a][b]\<close>, for a city \<open>a\<close> that is in the map.
  The cost list of a direction is reached only through its two keys, and no two directions
  ever share a list object (\<^verbatim>\<open>add_road\<close> creates two lists, \<^verbatim>\<open>from_dict\<close> copies), so the
  in-place \<^verbatim>\<open>append\<close>, \<^verbatim>\<open>remove\<close> and item assignment on a cost list are a \<open>put_road\<close> of the
  changed list.
\<close>

definition put_road :: "string \<Rightarrow> string \<Rightarrow> int list \<Rightarrow> cities \<Rightarrow> cities" where
  "put_road a b cs g = AList.map_entry a (AList.update b cs) g"

definition del_road :: "string \<Rightarrow> string \<Rightarrow> cities \<Rightarrow> cities" where
  "del_road a b g = AList.map_entry a (AList.delete b) g"

text \<open>\<^verbatim>\<open>xs.index(x)\<close> for an \<open>x\<close> that occurs in \<open>xs\<close>: the position of the first occurrence.\<close>

fun list_index :: "'a list \<Rightarrow> 'a \<Rightarrow> nat" where
  "list_index [] x = 0"
| "list_index (y # ys) x = (if y = x then 0 else Suc (list_index ys x))"

text \<open>
  Every operation returns what the method returns or raises, paired with the map it leaves
  behind: an exception raised half-way leaves the assignments made before it in place.
\<close>

definition add_city :: "string \<Rightarrow> cities \<Rightarrow> (error + bool) \<times> cities" where
  "add_city name g =
     (if has_key name g then (Inr False, g)
      else (Inr True, AList.update name [] g))"

definition remove_city :: "string \<Rightarrow> cities \<Rightarrow> (error + bool) \<times> cities" where
  "remove_city name g =
     (if \<not> has_key name g then (Inr False, g)
      else
        let g1 = map (\<lambda>(city, nb). (city, if has_key name nb then AList.delete name nb else nb)) g
        in (Inr True, AList.delete name g1))"

definition rename_city :: "string \<Rightarrow> string \<Rightarrow> cities \<Rightarrow> (error + bool) \<times> cities" where
  "rename_city old_name new_name g =
     (case map_of g old_name of
        None \<Rightarrow> (Inr False, g)
      | Some nb_old \<Rightarrow>
          if has_key new_name g then (Inr False, g)
          else
            let g1 = AList.update new_name nb_old (AList.delete old_name g);
                g2 = map (\<lambda>(city, nb).
                       (city, case map_of nb old_name of
                                None \<Rightarrow> nb
                              | Some cs \<Rightarrow> AList.update new_name cs (AList.delete old_name nb))) g1
            in (Inr True, g2))"

definition add_road :: "string \<Rightarrow> string \<Rightarrow> int \<Rightarrow> cities \<Rightarrow> (error + bool) \<times> cities" where
  "add_road city1 city2 cost g =
     (if \<not> has_key city1 g \<or> \<not> has_key city2 g then (Inr False, g)
      else
        let g1 = (if road g city1 city2 = None
                  then put_road city2 city1 [] (put_road city1 city2 [] g) else g)
        in case road g1 city1 city2 of
             None \<Rightarrow> (Inl KeyError, g1)
           | Some cs12 \<Rightarrow>
               let g2 = put_road city1 city2 (cs12 @ [cost]) g1
               in case road g2 city2 city1 of
                    None \<Rightarrow> (Inl KeyError, g2)
                  | Some cs21 \<Rightarrow> (Inr True, put_road city2 city1 (cs21 @ [cost]) g2))"

text \<open>
  \<^verbatim>\<open>del self.cities[city1][city2]; del self.cities[city2][city1]\<close>, the two statements that
  both branches of \<^verbatim>\<open>remove_road\<close> end with; the first key is known to be there.
\<close>

definition del_both :: "string \<Rightarrow> string \<Rightarrow> cities \<Rightarrow> (error + bool) \<times> cities" where
  "del_both city1 city2 g =
     (let g1 = del_road city1 city2 g
      in case road g1 city2 city1 of
           None \<Rightarrow> (Inl KeyError, g1)
         | Some _ \<Rightarrow> (Inr True, del_road city2 city1 g1))"

definition remove_road ::
  "string \<Rightarrow> string \<Rightarrow> int option \<Rightarrow> cities \<Rightarrow> (error + bool) \<times> cities" where
  "remove_road city1 city2 cost g =
     (if \<not> has_key city1 g \<or> \<not> has_key city2 g then (Inr False, g)
      else case road g city1 city2 of
        None \<Rightarrow> (Inr False, g)
      | Some cs12 \<Rightarrow>
         (case cost of
            None \<Rightarrow> del_both city1 city2 g
          | Some c \<Rightarrow>
              if c \<in> set cs12 then
                let g1 = put_road city1 city2 (remove1 c cs12) g
                in case road g1 city2 city1 of
                     None \<Rightarrow> (Inl KeyError, g1)
                   | Some cs21 \<Rightarrow>
                       if c \<notin> set cs21 then (Inl ValueError, g1)
                       else
                         let g2 = put_road city2 city1 (remove1 c cs21) g1
                         in if road g2 city1 city2 = Some [] then del_both city1 city2 g2
                            else (Inr True, g2)
              else (Inr True, g)))"

definition update_road_cost ::
  "string \<Rightarrow> string \<Rightarrow> int \<Rightarrow> int \<Rightarrow> cities \<Rightarrow> (error + bool) \<times> cities" where
  "update_road_cost city1 city2 old_cost new_cost g =
     (if \<not> has_key city1 g \<or> \<not> has_key city2 g then (Inr False, g)
      else case road g city1 city2 of
        None \<Rightarrow> (Inr False, g)
      | Some cs12 \<Rightarrow>
          if old_cost \<notin> set cs12 then (Inr False, g)
          else
            let index = list_index cs12 old_cost;
                g1 = put_road city1 city2 (cs12[index := new_cost]) g
            in case road g1 city2 city1 of
                 None \<Rightarrow> (Inl KeyError, g1)
               | Some cs21 \<Rightarrow>
                   if length cs21 \<le> index then (Inl IndexError, g1)
                   else (Inr True, put_road city2 city1 (cs21[index := new_cost]) g1))"

definition get_cities :: "cities \<Rightarrow> string list" where
  "get_cities g = map fst g"

definition get_roads_from_city :: "string \<Rightarrow> cities \<Rightarrow> (string \<times> int list) list" where
  "get_roads_from_city city g = (case map_of g city of None \<Rightarrow> [] | Some nb \<Rightarrow> nb)"


subsection \<open>Sequences of graph store operations\<close>

text \<open>
  A call of one of the six mutating methods of \<^verbatim>\<open>CityMap\<close>, and the map after a sequence of
  such calls. A call that raises leaves its partial changes behind and the sequence goes on
  from there (the application's exception hook reports the error and returns to the event
  loop).
\<close>

datatype op =
    AddCity string
  | RemoveCity string
  | RenameCity string string
  | AddRoad string string int
  | RemoveRoad string string "int option"
  | UpdateRoadCost string string int int

fun apply_op :: "op \<Rightarrow> cities \<Rightarrow> (error + bool) \<times> cities" where
  "apply_op (AddCity name) g = add_city name g"
| "apply_op (RemoveCity name) g = remove_city name g"
| "apply_op (RenameCity old_name new_name) g = rename_city old_name new_name g"
| "apply_op (AddRoad city1 city2 cost) g = add_road city1 city2 cost g"
| "apply_op (RemoveRoad city1 city2 cost) g = remove_road city1 city2 cost g"
| "apply_op (UpdateRoadCost city1 city2 old_cost new_cost) g =
     update_road_cost city1 city2 old_cost new_cost g"

definition run :: "op list \<Rightarrow> cities \<Rightarrow> cities" where
  "run ops g = fold (\<lambda>opn g'. snd (apply_op opn g')) ops g"

text \<open>The cost list of a direction, empty where there is no entry.\<close>

definition costs :: "cities \<Rightarrow> string \<Rightarrow> string \<Rightarrow> int list" where
  "costs g a b = (case road g a b of None \<Rightarrow> [] | Some cs \<Rightarrow> cs)"

text \<open>Both directions of every pair hold the same cost list, position for position.\<close>

definition symmetric :: "cities \<Rightarrow> bool" where
  "symmetric g = (\<forall>a b. road g a b = road g b a)"

subsection \<open>get_all_roads\<close>

text \<open>
  \<^verbatim>\<open>get_all_roads\<close> collects a Python \<^verbatim>\<open>set\<close> of pairs, skipping a pair whose reverse is
  already in it, and returns the pairs with their cost lists in the iteration order of that
  set, which Python leaves unspecified: the result is modelled as the set of its elements.
\<close>

definition road_pairs :: "cities \<Rightarrow> (string \<times> string) set" where
  "road_pairs g =
     fold (\<lambda>(city1, nb) roads.
             fold (\<lambda>(city2, _) roads'.
                     if (city2, city1) \<notin> roads' then insert (city1, city2) roads' else roads')
                  nb roads)
          g {}"

definition get_all_roads :: "cities \<Rightarrow> (string \<times> string \<times> int list) set" where
  "get_all_roads g = (\<lambda>(city1, city2). (city1, city2, costs g city1 city2)) ` road_pairs g"

subsection \<open>Commands\<close>

text \<open>
  The six subclasses of \<^verbatim>\<open>Command\<close>. Every command holds a reference to the one \<^verbatim>\<open>CityMap\<close>
  of the application; the map is passed to \<open>execute\<close> and \<open>undo\<close> and returned changed.
  \<^verbatim>\<open>RemoveCityCommand\<close> has the mutable field \<^verbatim>\<open>roads\<close>, a list of triples
  \<^verbatim>\<open>(name, neighbor, costs)\<close>, so \<open>execute\<close> and \<open>undo\<close> return the command as well.
  The type parameter is what stands for that list: for \<open>execute\<close> and \<open>undo\<close> the list
  itself; for a command object kept on a stack of the \<^verbatim>\<open>CommandManager\<close>, where the list is
  shared with the history, its address (below).
\<close>

type_synonym roads = "(string \<times> string \<times> int list) list"

datatype 'r command =
    AddCityCommand string
  | RemoveCityCommand string 'r
  | RenameCityCommand string string
  | AddRoadCommand string string int
  | RemoveRoadCommand string string int
  | UpdateRoadCommand string string int int

fun execute ::
  "roads command \<Rightarrow> cities \<Rightarrow> (error + bool) \<times> roads command \<times> cities" where
  "execute (AddCityCommand name) g =
     (let (r, g') = add_city name g in (r, AddCityCommand name, g'))"
| "execute (RemoveCityCommand name roads) g =
     (case map_of g name of
        None \<Rightarrow> (Inr False, RemoveCityCommand name roads, g)
      | Some nb \<Rightarrow>
          let roads' = roads @ map (\<lambda>(neighbor, costs). (name, neighbor, costs)) nb;
              (r, g') = remove_city name g
          in (r, RemoveCityCommand name roads', g'))"
| "execute (RenameCityCommand old_name new_name) g =
     (let (r, g') = rename_city old_name new_name g in (r, RenameCityCommand old_name new_name, g'))"
| "execute (AddRoadCommand city1 city2 cost) g =
     (let (r, g') = add_road city1 city2 cost g in (r, AddRoadCommand city1 city2 cost, g'))"
| "execute (RemoveRoadCommand city1 city2 cost) g =
     (let (r, g') = remove_road city1 city2 (Some cost) g
      in (r, RemoveRoadCommand city1 city2 cost, g'))"
| "execute (UpdateRoadCommand city1 city2 old_cost new_cost) g =
     (let (r, g') = update_road_cost city1 city2 old_cost new_cost g
      in (r, UpdateRoadCommand city1 city2 old_cost new_cost, g'))"

text \<open>
  The two loops of \<^verbatim>\<open>RemoveCityCommand.undo\<close>: every captured cost is added again with
  \<^verbatim>\<open>add_road\<close>; its return value is ignored, an exception ends the loops.
\<close>

fun add_costs :: "string \<Rightarrow> string \<Rightarrow> int list \<Rightarrow> cities \<Rightarrow> (error + unit) \<times> cities" where
  "add_costs city1 city2 [] g = (Inr (), g)"
| "add_costs city1 city2 (cost # rest) g =
     (case add_road city1 city2 cost g of
        (Inl e, g') \<Rightarrow> (Inl e, g')
      | (Inr _, g') \<Rightarrow> add_costs city1 city2 rest g')"

fun add_roads :: "roads \<Rightarrow> cities \<Rightarrow> (error + unit) \<times> cities" where
  "add_roads [] g = (Inr (), g)"
| "add_roads ((city1, city2, cs) # rest) g =
     (case add_costs city1 city2 cs g of
        (Inl e, g') \<Rightarrow> (Inl e, g')
      | (Inr _, g') \<Rightarrow> add_roads rest g')"

fun undo ::
  "roads command \<Rightarrow> cities \<Rightarrow> (error + bool) \<times> roads command \<times> cities" where
  "undo (AddCityCommand name) g =
     (let (r, g') = remove_city name g in (r, AddCityCommand name, g'))"
| "undo (RemoveCityCommand name roads) g =
     (case add_city name g of
        (Inr True, g1) \<Rightarrow>
          (case add_roads roads g1 of
             (Inl e, g2) \<Rightarrow> (Inl e, RemoveCityCommand name roads, g2)
           | (Inr _, g2) \<Rightarrow> (Inr True, RemoveCityCommand name roads, g2))
      | (Inr False, g1) \<Rightarrow> (Inr False, RemoveCityCommand name roads, g1)
      | (Inl e, g1) \<Rightarrow> (Inl e, RemoveCityCommand name roads, g1))"
| "undo (RenameCityCommand old_name new_name) g =
     (let (r, g') = rename_city new_name old_name g in (r, RenameCityCommand old_name new_name, g'))"
| "undo (AddRoadCommand city1 city2 cost) g =
     (let (r, g') = remove_road city1 city2 (Some cost) g
      in (r, AddRoadCommand city1 city2 cost, g'))"
| "undo (RemoveRoadCommand city1 city2 cost) g =
     (let (r, g') = add_road city1 city2 cost g in (r, RemoveRoadCommand city1 city2 cost, g'))"
| "undo (UpdateRoadCommand city1 city2 old_cost new_cost) g =
     (let (r, g') = update_road_cost city1 city2 new_cost old_cost g
      in (r, UpdateRoadCommand city1 city2 old_cost new_cost, g'))"

subsection \<open>Vocabulary of the undo and redo laws\<close>

text \<open>
  A map is valid when it is symmetric, every neighbour dictionary has each key once (it is a
  dictionary), and no stored cost list is empty (\<^verbatim>\<open>remove_road\<close> deletes the entry of a
  list it has emptied).
\<close>

definition inner_distinct :: "cities \<Rightarrow> bool" where
  "inner_distinct g = (\<forall>a nb. map_of g a = Some nb \<longrightarrow> distinct (map fst nb))"

definition valid :: "cities \<Rightarrow> bool" where
  "valid g = (symmetric g \<and> inner_distinct g \<and> (\<forall>a b. road g a b \<noteq> Some []))"

text \<open>
  \<open>g'\<close> has the cities of \<open>g\<close> and, in every direction, the costs of \<open>g\<close> as a multiset.
\<close>

definition restored :: "cities \<Rightarrow> cities \<Rightarrow> bool" where
  "restored g g' =
     ((\<forall>x. has_key x g' = has_key x g) \<and>
      (\<forall>x y. map_option mset (road g' x y) = map_option mset (road g x y)))"

text \<open>
  The commands the inverse law is stated for: a road joins two different cities, a removed
  city has no road to itself and its command has captured nothing yet, and a removed road
  has a cost that is there.
\<close>

fun applicable :: "roads command \<Rightarrow> cities \<Rightarrow> bool" where
  "applicable (AddCityCommand name) g = True"
| "applicable (RemoveCityCommand name roads) g = (roads = [] \<and> road g name name = None)"
| "applicable (RenameCityCommand old_name new_name) g = True"
| "applicable (AddRoadCommand city1 city2 cost) g = (city1 \<noteq> city2)"
| "applicable (RemoveRoadCommand city1 city2 cost) g =
     (city1 \<noteq> city2 \<and> cost \<in> set (costs g city1 city2))"
| "applicable (UpdateRoadCommand city1 city2 old_cost new_cost) g = (city1 \<noteq> city2)"

text \<open>
  The commands whose undo does not reorder a cost list: removal and replacement act on the
  first occurrence of a value, and a new cost goes to the end.
\<close>

fun order_safe :: "roads command \<Rightarrow> cities \<Rightarrow> bool" where
  "order_safe (AddRoadCommand city1 city2 cost) g = (cost \<notin> set (costs g city1 city2))"
| "order_safe (RemoveRoadCommand city1 city2 cost) g =
     (remove1 cost (costs g city1 city2) @ [cost] = costs g city1 city2)"
| "order_safe (UpdateRoadCommand city1 city2 old_cost new_cost) g =
     (new_cost \<notin> set (costs g city1 city2))"
| "order_safe _ g = True"

text \<open>A road function with both directions of one pair set to the same value.\<close>

definition set_pair ::
  "string \<Rightarrow> string \<Rightarrow> int list option \<Rightarrow> (string \<Rightarrow> string \<Rightarrow> int list option)
     \<Rightarrow> string \<Rightarrow> string \<Rightarrow> int list option" where
  "set_pair a b v r = (\<lambda>x y. if (x = a \<and> y = b) \<or> (x = b \<and> y = a) then v else r x y)"

text \<open>The triples that \<^verbatim>\<open>RemoveCityCommand.execute\<close> appends for a city with neighbours \<open>nb\<close>.\<close>

definition captured :: "string \<Rightarrow> neighbors \<Rightarrow> roads" where
  "captured name nb = map (\<lambda>(neighbor, costs). (name, neighbor, costs)) nb"

text \<open>
  The application refuses a road from a city to itself before it builds the command
  (\<^verbatim>\<open>CityMapApp.add_road\<close>); \<^verbatim>\<open>CityMap.add_road\<close> itself does not.
\<close>

fun loop_free :: "op \<Rightarrow> bool" where
  "loop_free (AddRoad city1 city2 cost) = (city1 \<noteq> city2)"
| "loop_free _ = True"

text \<open>No stored cost list is empty and no city has a road to itself.\<close>

definition plain :: "cities \<Rightarrow> bool" where
  "plain g = ((\<forall>x y. road g x y \<noteq> Some []) \<and> (\<forall>a. road g a a = None))"

subsection \<open>JSON values\<close>

text \<open>
  The values that \<^verbatim>\<open>json.load\<close> returns and \<^verbatim>\<open>json.dump\<close> accepts: \<^verbatim>\<open>None\<close>, booleans,
  integers, strings, lists, and dictionaries with string keys in the order of the file.
  Floating point numbers are left out. A tuple is written by \<^verbatim>\<open>json.dump\<close> as a list, so the
  tuples of \<^verbatim>\<open>RemoveCityCommand.roads\<close> are \<open>JList\<close>s here. Writing such a value with
  \<^verbatim>\<open>json.dump\<close> and reading the file with \<^verbatim>\<open>json.load\<close> gives the value back.
\<close>

datatype json =
    JNull
  | JBool bool
  | JInt int
  | JStr string
  | JList "json list"
  | JDict "(string \<times> json) list"

text \<open>\<^verbatim>\<open>d.get(k, default)\<close>\<close>

definition dict_get :: "(string \<times> json) list \<Rightarrow> string \<Rightarrow> json \<Rightarrow> json" where
  "dict_get d k dflt = (case map_of d k of None \<Rightarrow> dflt | Some v \<Rightarrow> v)"

text \<open>\<^verbatim>\<open>xs[i]\<close> and \<^verbatim>\<open>xs[:k]\<close> with Python's negative indices.\<close>

definition py_get :: "'a list \<Rightarrow> int \<Rightarrow> error + 'a" where
  "py_get xs i =
     (if 0 \<le> i \<and> i < int (length xs) then Inr (xs ! nat i)
      else if i < 0 \<and> - int (length xs) \<le> i then Inr (xs ! nat (int (length xs) + i))
      else Inl IndexError)"

definition py_slice_to :: "'a list \<Rightarrow> int \<Rightarrow> 'a list" where
  "py_slice_to xs k = (if k < 0 then take (nat (int (length xs) + k)) xs else take (nat k) xs)"

subsection \<open>Values in memory\<close>

text \<open>
  The entries of \<^verbatim>\<open>history\<close> are Python values: the dictionaries that \<^verbatim>\<open>_save_state\<close>
  builds, or whatever a loaded document holds. They are JSON values but for one thing: the
  \<^verbatim>\<open>'roads'\<close> of a \<^verbatim>\<open>RemoveCityCommand\<close> record is the list object of the command itself
  (\<^verbatim>\<open>_command_to_dict\<close> puts \<^verbatim>\<open>cmd.roads\<close> into the record without copying it, and
  \<^verbatim>\<open>_deserialize_commands\<close> puts the list of the record into the command). \<open>ORoads r\<close> is
  the list object at address \<open>r\<close>. The lists are kept in a heap, a function from addresses
  to lists, and a command object holds the address of its list, so what \<^verbatim>\<open>execute\<close> appends
  to the list shows in every entry that shares it.
\<close>

datatype obj =
    ONull
  | OBool bool
  | OInt int
  | OStr string
  | OList "obj list"
  | ODict "(string \<times> obj) list"
  | ORoads nat

text \<open>A JSON value that has just been parsed shares nothing.\<close>

primrec obj_of_json :: "json \<Rightarrow> obj" where
  "obj_of_json JNull = ONull"
| "obj_of_json (JBool b) = OBool b"
| "obj_of_json (JInt n) = OInt n"
| "obj_of_json (JStr s) = OStr s"
| "obj_of_json (JList xs) = OList (map obj_of_json xs)"
| "obj_of_json (JDict d) = ODict (map (map_prod id obj_of_json) d)"

definition road_to_json :: "string \<times> string \<times> int list \<Rightarrow> json" where
  "road_to_json r = (case r of (city1, city2, cs) \<Rightarrow>
     JList [JStr city1, JStr city2, JList (map JInt cs)])"

text \<open>What \<^verbatim>\<open>json.dump\<close> writes for a value, the lists as they are in the heap \<open>h\<close>.\<close>

primrec json_of_obj :: "(nat \<Rightarrow> roads) \<Rightarrow> obj \<Rightarrow> json" where
  "json_of_obj h ONull = JNull"
| "json_of_obj h (OBool b) = JBool b"
| "json_of_obj h (OInt n) = JInt n"
| "json_of_obj h (OStr s) = JStr s"
| "json_of_obj h (OList xs) = JList (map (json_of_obj h) xs)"
| "json_of_obj h (ODict d) = JDict (map (map_prod id (json_of_obj h)) d)"
| "json_of_obj h (ORoads r) = JList (map road_to_json (h r))"

subsection \<open>CommandManager: snapshots\<close>

text \<open>
  The state of the program: the fields of the \<^verbatim>\<open>CommandManager\<close>, and the heap with the
  \<^verbatim>\<open>roads\<close> lists of the \<^verbatim>\<open>RemoveCityCommand\<close> objects. \<open>next_ref\<close> is the address that the
  next new list gets. The stacks are Python lists: \<^verbatim>\<open>append\<close> adds at the end and \<^verbatim>\<open>pop()\<close>
  takes the last element.
\<close>

record command_manager =
  city_map :: cities
  undo_stack :: "nat command list"
  redo_stack :: "nat command list"
  history :: "obj list"
  current_history_index :: int
  heap :: "nat \<Rightarrow> roads"
  next_ref :: nat

text \<open>
  \<^verbatim>\<open>RemoveCityCommand(city_map, name)\<close>: the constructor sets \<^verbatim>\<open>self.roads = []\<close>, a new
  list. The other commands hold no list.
\<close>

definition new_remove_city_command :: "string \<Rightarrow> command_manager \<Rightarrow> nat command \<times> command_manager" where
  "new_remove_city_command name m =
     (RemoveCityCommand name (next_ref m),
      m\<lparr>heap := (heap m)(next_ref m := []), next_ref := Suc (next_ref m)\<rparr>)"

text \<open>
  A command object as \<open>execute\<close> and \<open>undo\<close> take it, with the list that is in the heap; and
  the heap after the method has returned, with the list that the method has left.
\<close>

fun fetch :: "(nat \<Rightarrow> roads) \<Rightarrow> nat command \<Rightarrow> roads command" where
  "fetch h (AddCityCommand name) = AddCityCommand name"
| "fetch h (RemoveCityCommand name r) = RemoveCityCommand name (h r)"
| "fetch h (RenameCityCommand old_name new_name) = RenameCityCommand old_name new_name"
| "fetch h (AddRoadCommand city1 city2 cost) = AddRoadCommand city1 city2 cost"
| "fetch h (RemoveRoadCommand city1 city2 cost) = RemoveRoadCommand city1 city2 cost"
| "fetch h (UpdateRoadCommand city1 city2 old_cost new_cost) =
     UpdateRoadCommand city1 city2 old_cost new_cost"

fun store :: "nat command \<Rightarrow> roads command \<Rightarrow> (nat \<Rightarrow> roads) \<Rightarrow> nat \<Rightarrow> roads" where
  "store (RemoveCityCommand name r) (RemoveCityCommand name' roads') h = h(r := roads')"
| "store command command' h = h"

definition get_safe_state :: "cities \<Rightarrow> json" where
  "get_safe_state g =
     JDict [(''cities'',
             JDict (map (\<lambda>(city, roads).
                      (city, JDict (map (\<lambda>(neighbor, costs). (neighbor, JList (map JInt costs)))
                                      roads))) g)),
            (''_version'', JStr ''1.2'')]"

fun command_to_dict :: "nat command \<Rightarrow> obj" where
  "command_to_dict (AddCityCommand name) =
     ODict [(''type'', OStr ''AddCityCommand''), (''name'', OStr name)]"
| "command_to_dict (RemoveCityCommand name r) =
     ODict [(''type'', OStr ''RemoveCityCommand''), (''name'', OStr name),
            (''roads'', ORoads r)]"
| "command_to_dict (RenameCityCommand old_name new_name) =
     ODict [(''type'', OStr ''RenameCityCommand''), (''old_name'', OStr old_name),
            (''new_name'', OStr new_name)]"
| "command_to_dict (AddRoadCommand city1 city2 cost) =
     ODict [(''type'', OStr ''AddRoadCommand''), (''city1'', OStr city1), (''city2'', OStr city2),
            (''cost'', OInt cost)]"
| "command_to_dict (RemoveRoadCommand city1 city2 cost) =
     ODict [(''type'', OStr ''RemoveRoadCommand''), (''city1'', OStr city1), (''city2'', OStr city2),
            (''cost'', OInt cost)]"
| "command_to_dict (UpdateRoadCommand city1 city2 old_cost new_cost) =
     ODict [(''type'', OStr ''UpdateRoadCommand''), (''city1'', OStr city1), (''city2'', OStr city2),
            (''old_cost'', OInt old_cost), (''new_cost'', OInt new_cost)]"

definition serialize_commands :: "nat command list \<Rightarrow> obj" where
  "serialize_commands commands = OList (map command_to_dict commands)"

text \<open>The dictionary \<^verbatim>\<open>state\<close> of \<^verbatim>\<open>_save_state\<close>, which \<^verbatim>\<open>save_to_file\<close> builds as well.\<close>

definition snapshot :: "command_manager \<Rightarrow> obj" where
  "snapshot m =
     ODict [(''map_state'', obj_of_json (get_safe_state (city_map m))),
            (''undo_stack'', serialize_commands (undo_stack m)),
            (''redo_stack'', serialize_commands (redo_stack m))]"

definition save_state :: "command_manager \<Rightarrow> command_manager" where
  "save_state m =
     (let state = snapshot m;
          h = (if current_history_index m < int (length (history m)) - 1
               then py_slice_to (history m) (current_history_index m + 1)
               else history m);
          h' = h @ [state]
      in m\<lparr>history := h', current_history_index := int (length h') - 1\<rparr>)"

text \<open>\<^verbatim>\<open>CommandManager.__init__\<close>, in a program that has made no command yet.\<close>

definition new_manager :: "cities \<Rightarrow> command_manager" where
  "new_manager g =
     save_state \<lparr>city_map = g, undo_stack = [], redo_stack = [], history = [],
                 current_history_index = - 1, heap = (\<lambda>r. []), next_ref = 0\<rparr>"

subsection \<open>CommandManager: execute, undo, redo\<close>

text \<open>
  An exception raised by the command leaves the method at that point: what was assigned
  before stays assigned. \<open>manager_undo\<close> and \<open>manager_redo\<close> are \<^verbatim>\<open>CommandManager.undo\<close> and
  \<^verbatim>\<open>CommandManager.redo\<close>. The object that goes onto a stack is the one that was taken or
  passed; what its method did to its list is in the heap.
\<close>

definition execute_command ::
  "nat command \<Rightarrow> command_manager \<Rightarrow> (error + bool) \<times> command_manager" where
  "execute_command command m =
     (case execute (fetch (heap m) command) (city_map m) of
        (Inl e, command', g') \<Rightarrow>
          (Inl e, m\<lparr>city_map := g', heap := store command command' (heap m)\<rparr>)
      | (Inr True, command', g') \<Rightarrow>
          (Inr True,
           save_state (m\<lparr>city_map := g', heap := store command command' (heap m),
                         undo_stack := undo_stack m @ [command], redo_stack := []\<rparr>))
      | (Inr False, command', g') \<Rightarrow>
          (Inr False, m\<lparr>city_map := g', heap := store command command' (heap m)\<rparr>))"

definition manager_undo :: "command_manager \<Rightarrow> (error + bool) \<times> command_manager" where
  "manager_undo m =
     (if undo_stack m = [] then (Inr False, m)
      else
        let command = last (undo_stack m);
            m1 = m\<lparr>undo_stack := butlast (undo_stack m)\<rparr>
        in case undo (fetch (heap m1) command) (city_map m1) of
             (Inl e, command', g') \<Rightarrow>
               (Inl e, m1\<lparr>city_map := g', heap := store command command' (heap m1)\<rparr>)
           | (Inr True, command', g') \<Rightarrow>
               (Inr True,
                save_state (m1\<lparr>city_map := g', heap := store command command' (heap m1),
                               redo_stack := redo_stack m1 @ [command]\<rparr>))
           | (Inr False, command', g') \<Rightarrow>
               (Inr False, m1\<lparr>city_map := g', heap := store command command' (heap m1)\<rparr>))"

definition manager_redo :: "command_manager \<Rightarrow> (error + bool) \<times> command_manager" where
  "manager_redo m =
     (if redo_stack m = [] then (Inr False, m)
      else
        let command = last (redo_stack m);
            m1 = m\<lparr>redo_stack := butlast (redo_stack m)\<rparr>
        in case execute (fetch (heap m1) command) (city_map m1) of
             (Inl e, command', g') \<Rightarrow>
               (Inl e, m1\<lparr>city_map := g', heap := store command command' (heap m1)\<rparr>)
           | (Inr True, command', g') \<Rightarrow>
               (Inr True,
                save_state (m1\<lparr>city_map := g', heap := store command command' (heap m1),
                               undo_stack := undo_stack m1 @ [command]\<rparr>))
           | (Inr False, command', g') \<Rightarrow>
               (Inr False, m1\<lparr>city_map := g', heap := store command command' (heap m1)\<rparr>))"

subsection \<open>Saving\<close>

text \<open>
  The dictionary \<^verbatim>\<open>data\<close> as \<^verbatim>\<open>save_to_file\<close> writes it with \<^verbatim>\<open>json.dump\<close>; \<open>created\<close> is
  \<^verbatim>\<open>datetime.now().isoformat()\<close>. When opening or writing the file raises, the method
  returns \<^verbatim>\<open>False\<close> and there is no document.
\<close>

definition save_to_file :: "string \<Rightarrow> command_manager \<Rightarrow> json" where
  "save_to_file created m =
     JDict [(''history'', JList [json_of_obj (heap m) (snapshot m)]),
            (''current_index'', JInt 0),
            (''_metadata'', JDict [(''version'', JStr ''1.2''), (''created'', JStr created)])]"

subsection \<open>Loading: CityMap.from_dict\<close>

text \<open>
  Python stores whatever the document holds. The fields here are typed as the source
  annotates them (\<^verbatim>\<open>List[int]\<close> costs, \<^verbatim>\<open>str\<close> names, a list as history, an \<^verbatim>\<open>int\<close> as
  cursor), so a state with a value of another type in such a place cannot be written down.
  The loading functions say what the code returns or raises for every document, and give
  the state it leaves as an option: \<open>None\<close> when that state holds such a value.
\<close>

fun int_of_json :: "json \<Rightarrow> int option" where
  "int_of_json (JInt n) = Some n"
| "int_of_json _ = None"

text \<open>\<^verbatim>\<open>list(costs) if isinstance(costs, list) else [costs]\<close>\<close>

fun costs_of_json :: "json \<Rightarrow> int list option" where
  "costs_of_json (JList xs) = those (map int_of_json xs)"
| "costs_of_json j = map_option (\<lambda>n. [n]) (int_of_json j)"

text \<open>
  The inner loop \<^verbatim>\<open>for neighbor, costs in neighbors.items()\<close>, filling the dictionary
  of a city that has just been entered. It raises nothing.
\<close>

fun fill_neighbors :: "string \<Rightarrow> (string \<times> json) list \<Rightarrow> cities \<Rightarrow> cities option" where
  "fill_neighbors city [] g = Some g"
| "fill_neighbors city ((neighbor, cs) # rest) g =
     (case costs_of_json cs of
        None \<Rightarrow> None
      | Some cl \<Rightarrow> fill_neighbors city rest (put_road city neighbor cl g))"

text \<open>
  The outer loop of the branch for version 1.2: \<^verbatim>\<open>neighbors.items()\<close> raises
  \<^verbatim>\<open>AttributeError\<close> for a value that is not a dictionary, after the city has been entered.
\<close>

fun load_cities_v12 ::
  "(string \<times> json) list \<Rightarrow> cities option \<Rightarrow> (error + unit) \<times> cities option" where
  "load_cities_v12 [] g = (Inr (), g)"
| "load_cities_v12 ((city, neighbors) # rest) g =
     (let g1 = map_option (AList.update city []) g
      in case neighbors of
           JDict nd \<Rightarrow> load_cities_v12 rest (Option.bind g1 (fill_neighbors city nd))
         | _ \<Rightarrow> (Inl AttributeError, g1))"

text \<open>
  The outer loop of the other branch, over the items of the document itself, with
  \<^verbatim>\<open>if isinstance(neighbors, dict)\<close> around the inner loop.
\<close>

fun load_cities_legacy ::
  "(string \<times> json) list \<Rightarrow> cities option \<Rightarrow> (error + unit) \<times> cities option" where
  "load_cities_legacy [] g = (Inr (), g)"
| "load_cities_legacy ((city, neighbors) # rest) g =
     (let g1 = map_option (AList.update city []) g
      in case neighbors of
           JDict nd \<Rightarrow> load_cities_legacy rest (Option.bind g1 (fill_neighbors city nd))
         | _ \<Rightarrow> load_cities_legacy rest g1)"

text \<open>
  \<^verbatim>\<open>from_dict\<close> raises \<^verbatim>\<open>ValueError\<close> before it touches the map when the argument is not a
  dictionary; otherwise it starts from \<^verbatim>\<open>self.cities = {}\<close> in either branch. The result is
  what it raises (or nothing) and the map it leaves.
\<close>

definition from_dict :: "json \<Rightarrow> cities option \<Rightarrow> (error + unit) \<times> cities option" where
  "from_dict data g =
     (case data of
        JDict d \<Rightarrow>
          if dict_get d ''_version'' (JStr ''1.0'') = JStr ''1.2''
          then (case dict_get d ''cities'' (JDict []) of
                  JDict cities_data \<Rightarrow> load_cities_v12 cities_data (Some [])
                | _ \<Rightarrow> (Inl AttributeError, Some []))
          else load_cities_legacy d (Some [])
      | _ \<Rightarrow> (Inl ValueError, g))"

subsection \<open>Loading: commands\<close>

fun road_of_json :: "json \<Rightarrow> (string \<times> string \<times> int list) option" where
  "road_of_json (JList [JStr city1, JStr city2, JList cs]) =
     map_option (\<lambda>cl. (city1, city2, cl)) (those (map int_of_json cs))"
| "road_of_json _ = None"

fun roads_of_json :: "json \<Rightarrow> roads option" where
  "roads_of_json (JList rs) = those (map road_of_json rs)"
| "roads_of_json _ = None"

text \<open>
  What the body of the loop in \<^verbatim>\<open>_deserialize_commands\<close> does with one entry: it makes a
  command, or skips the entry (an unknown type, or an exception caught by the bare
  \<^verbatim>\<open>except\<close>: a missing key, an entry that is not a dictionary). The list of a
  \<^verbatim>\<open>RemoveCityCommand\<close> is read here as the value it has.
\<close>

datatype decoded = Command "roads command" | Skipped | Untyped

text \<open>
  \<^verbatim>\<open>cmd_data[k]\<close> as an argument of a constructor: a missing key raises \<^verbatim>\<open>KeyError\<close> and the
  entry is skipped; a value of another type than the field has goes into the command all
  the same, unless a key that is read after it is missing.
\<close>

definition str_field :: "(string \<times> json) list \<Rightarrow> string \<Rightarrow> (string \<Rightarrow> decoded) \<Rightarrow> decoded" where
  "str_field d k f =
     (case map_of d k of
        None \<Rightarrow> Skipped
      | Some (JStr s) \<Rightarrow> f s
      | Some _ \<Rightarrow> (case f [] of Skipped \<Rightarrow> Skipped | _ \<Rightarrow> Untyped))"

definition int_field :: "(string \<times> json) list \<Rightarrow> string \<Rightarrow> (int \<Rightarrow> decoded) \<Rightarrow> decoded" where
  "int_field d k f =
     (case map_of d k of
        None \<Rightarrow> Skipped
      | Some (JInt n) \<Rightarrow> f n
      | Some _ \<Rightarrow> (case f 0 of Skipped \<Rightarrow> Skipped | _ \<Rightarrow> Untyped))"

definition deserialize_command :: "json \<Rightarrow> decoded" where
  "deserialize_command cmd_data =
     (case cmd_data of
        JDict d \<Rightarrow>
          (case map_of d ''type'' of
             None \<Rightarrow> Skipped
           | Some t \<Rightarrow>
               if t = JStr ''AddCityCommand'' then
                 str_field d ''name'' (\<lambda>name. Command (AddCityCommand name))
               else if t = JStr ''RemoveCityCommand'' then
                 str_field d ''name'' (\<lambda>name.
                   case roads_of_json (dict_get d ''roads'' (JList [])) of
                     None \<Rightarrow> Untyped
                   | Some rs \<Rightarrow> Command (RemoveCityCommand name rs))
               else if t = JStr ''RenameCityCommand'' then
                 str_field d ''old_name'' (\<lambda>old_name.
                 str_field d ''new_name'' (\<lambda>new_name.
                   Command (RenameCityCommand old_name new_name)))
               else if t = JStr ''AddRoadCommand'' then
                 str_field d ''city1'' (\<lambda>city1.
                 str_field d ''city2'' (\<lambda>city2.
                 int_field d ''cost'' (\<lambda>cost.
                   Command (AddRoadCommand city1 city2 cost))))
               else if t = JStr ''RemoveRoadCommand'' then
                 str_field d ''city1'' (\<lambda>city1.
                 str_field d ''city2'' (\<lambda>city2.
                 int_field d ''cost'' (\<lambda>cost.
                   Command (RemoveRoadCommand city1 city2 cost))))
               else if t = JStr ''UpdateRoadCommand'' then
                 str_field d ''city1'' (\<lambda>city1.
                 str_field d ''city2'' (\<lambda>city2.
                 int_field d ''old_cost'' (\<lambda>old_cost.
                 int_field d ''new_cost'' (\<lambda>new_cost.
                   Command (UpdateRoadCommand city1 city2 old_cost new_cost)))))
               else Skipped)
      | _ \<Rightarrow> Skipped)"

text \<open>
  The record of a \<^verbatim>\<open>RemoveCityCommand\<close> after \<^verbatim>\<open>cmd.roads = cmd_data.get('roads', [])\<close>: the
  list under \<^verbatim>\<open>'roads'\<close>, when there is one, is now the list of the command, at address \<open>r\<close>.
  Without that key the command gets a new list, which the record does not hold.
\<close>

definition share_roads :: "json \<Rightarrow> nat \<Rightarrow> obj" where
  "share_roads cmd_data r =
     (case cmd_data of
        JDict d \<Rightarrow> ODict (map (\<lambda>(k, v). (k, if k = ''roads'' then ORoads r else obj_of_json v)) d)
      | _ \<Rightarrow> obj_of_json cmd_data)"

text \<open>
  The command object made from a record: the object, the record as it is in memory
  afterwards, the heap and the next free address.
\<close>

fun adopt ::
  "roads command \<Rightarrow> json \<Rightarrow> (nat \<Rightarrow> roads) \<Rightarrow> nat
     \<Rightarrow> nat command \<times> obj \<times> (nat \<Rightarrow> roads) \<times> nat" where
  "adopt (AddCityCommand name) cmd_data h n = (AddCityCommand name, obj_of_json cmd_data, h, n)"
| "adopt (RemoveCityCommand name roads) cmd_data h n =
     (RemoveCityCommand name n, share_roads cmd_data n, h(n := roads), Suc n)"
| "adopt (RenameCityCommand old_name new_name) cmd_data h n =
     (RenameCityCommand old_name new_name, obj_of_json cmd_data, h, n)"
| "adopt (AddRoadCommand city1 city2 cost) cmd_data h n =
     (AddRoadCommand city1 city2 cost, obj_of_json cmd_data, h, n)"
| "adopt (RemoveRoadCommand city1 city2 cost) cmd_data h n =
     (RemoveRoadCommand city1 city2 cost, obj_of_json cmd_data, h, n)"
| "adopt (UpdateRoadCommand city1 city2 old_cost new_cost) cmd_data h n =
     (UpdateRoadCommand city1 city2 old_cost new_cost, obj_of_json cmd_data, h, n)"

text \<open>
  The loop over a list of records: the commands, the records as they are in memory
  afterwards, the heap and the next free address; \<open>None\<close> when a command would hold a value
  of another type than its field has.
\<close>

fun collect_commands ::
  "json list \<Rightarrow> (nat \<Rightarrow> roads) \<Rightarrow> nat
     \<Rightarrow> (nat command list \<times> obj list \<times> (nat \<Rightarrow> roads) \<times> nat) option" where
  "collect_commands [] h n = Some ([], [], h, n)"
| "collect_commands (cmd_data # rest) h n =
     (case deserialize_command cmd_data of
        Untyped \<Rightarrow> None
      | Skipped \<Rightarrow>
          map_option (\<lambda>(commands, records, h', n'). (commands, obj_of_json cmd_data # records, h', n'))
            (collect_commands rest h n)
      | Command cmd \<Rightarrow>
          (case adopt cmd cmd_data h n of
             (command, item, h1, n1) \<Rightarrow>
               map_option (\<lambda>(commands, records, h', n'). (command # commands, item # records, h', n'))
                 (collect_commands rest h1 n1)))"

text \<open>
  \<^verbatim>\<open>for cmd_data in commands_data\<close>: a list gives its elements; a dictionary gives its keys and
  a string its characters, all strings, which the loop body skips; anything else is not
  iterable and raises \<^verbatim>\<open>TypeError\<close> outside the inner \<^verbatim>\<open>try\<close>. The result is the error, or
  the commands, \<open>commands_data\<close> as it is in memory afterwards, and the state with the new
  lists in its heap.
\<close>

definition deserialize_commands ::
  "json \<Rightarrow> command_manager option
     \<Rightarrow> error + (nat command list \<times> obj \<times> command_manager) option" where
  "deserialize_commands commands_data m =
     (case commands_data of
        JList xs \<Rightarrow>
          Inr (Option.bind m (\<lambda>m.
                 map_option (\<lambda>(commands, records, h, n).
                               (commands, OList records, m\<lparr>heap := h, next_ref := n\<rparr>))
                   (collect_commands xs (heap m) (next_ref m))))
      | JDict d \<Rightarrow> Inr (map_option (\<lambda>m. ([], obj_of_json commands_data, m)) m)
      | JStr s \<Rightarrow> Inr (map_option (\<lambda>m. ([], obj_of_json commands_data, m)) m)
      | _ \<Rightarrow> Inl TypeError)"

subsection \<open>Loading: CommandManager.load_from_file\<close>

text \<open>\<^verbatim>\<open>not self.history\<close> is the negation of this.\<close>

fun truthy :: "json \<Rightarrow> bool" where
  "truthy JNull = False"
| "truthy (JBool b) = b"
| "truthy (JInt n) = (n \<noteq> 0)"
| "truthy (JStr s) = (s \<noteq> [])"
| "truthy (JList xs) = (xs \<noteq> [])"
| "truthy (JDict d) = (d \<noteq> [])"

text \<open>
  \<^verbatim>\<open>self.history[self.current_history_index]\<close> for whatever the document holds in the two
  places: a list or a string is indexed by an integer (\<^verbatim>\<open>True\<close> is 1 and \<^verbatim>\<open>False\<close> is 0), a
  dictionary by a string; a list or a dictionary as key of a dictionary is not hashable.
\<close>

fun subscript :: "json \<Rightarrow> json \<Rightarrow> error + json" where
  "subscript (JList xs) (JInt i) = py_get xs i"
| "subscript (JList xs) (JBool b) = py_get xs (if b then 1 else 0)"
| "subscript (JStr s) (JInt i) = map_sum id (\<lambda>c. JStr [c]) (py_get s i)"
| "subscript (JStr s) (JBool b) = map_sum id (\<lambda>c. JStr [c]) (py_get s (if b then 1 else 0))"
| "subscript (JDict d) (JStr k) = (case map_of d k of None \<Rightarrow> Inl KeyError | Some v \<Rightarrow> Inr v)"
| "subscript (JDict d) (JList xs) = Inl TypeError"
| "subscript (JDict d) (JDict k) = Inl TypeError"
| "subscript (JDict d) i = Inl KeyError"
| "subscript h i = Inl TypeError"

text \<open>
  \<^verbatim>\<open>map_state = state.get('map_state', {})\<close>, parsed when it is a string. \<open>loads\<close> is
  \<^verbatim>\<open>json.loads\<close>, with \<open>None\<close> where it raises.
\<close>

definition parsed_map_state :: "(string \<Rightarrow> json option) \<Rightarrow> (string \<times> json) list \<Rightarrow> json option" where
  "parsed_map_state loads state =
     (case dict_get state ''map_state'' (JDict []) of
        JStr s \<Rightarrow> loads s
      | map_state \<Rightarrow> Some map_state)"

text \<open>
  The two assignments at the start: the history and the cursor are the document's, whatever
  they are.
\<close>

definition set_timeline :: "json \<Rightarrow> json \<Rightarrow> command_manager \<Rightarrow> command_manager option" where
  "set_timeline history_data index_data m =
     (case (history_data, index_data) of
        (JList h, JInt i) \<Rightarrow> Some (m\<lparr>history := map obj_of_json h, current_history_index := i\<rparr>)
      | _ \<Rightarrow> None)"

definition set_city_map :: "cities option \<Rightarrow> command_manager option \<Rightarrow> command_manager option" where
  "set_city_map g m = Option.bind g (\<lambda>g. map_option (\<lambda>m. m\<lparr>city_map := g\<rparr>) m)"

text \<open>
  The entry at the cursor after a stack has been read from its field \<open>key\<close>: the field, when
  the entry has it, is \<open>commands_data\<close> as it is in memory now.
\<close>

definition share_entry :: "string \<Rightarrow> obj \<Rightarrow> command_manager \<Rightarrow> command_manager" where
  "share_entry key commands_data m =
     (let i = current_history_index m;
          p = nat (if i < 0 then int (length (history m)) + i else i)
      in m\<lparr>history := (history m)
              [p := (case history m ! p of
                       ODict d \<Rightarrow>
                         ODict (if map_of d key = None then d else AList.update key commands_data d)
                     | entry \<Rightarrow> entry)]\<rparr>)"

text \<open>
  The first argument is \<^verbatim>\<open>json.loads\<close>, the second what \<^verbatim>\<open>json.load\<close> returns, \<open>None\<close> when
  opening or parsing the file raises. Every exception inside the method is caught and
  turned into \<^verbatim>\<open>False\<close>; the assignments made before it stay.
\<close>

definition load_from_file ::
  "(string \<Rightarrow> json option) \<Rightarrow> json option \<Rightarrow> command_manager
     \<Rightarrow> bool \<times> command_manager option" where
  "load_from_file loads file m =
     (case file of
        None \<Rightarrow> (False, Some m)
      | Some (JDict data) \<Rightarrow>
          let history_data = dict_get data ''history'' (JList []);
              index_data = dict_get data ''current_index'' (JInt 0);
              m1 = set_timeline history_data index_data m
          in if \<not> truthy history_data then (False, m1)
             else
               (case subscript history_data index_data of
                  Inl e \<Rightarrow> (False, m1)
                | Inr (JDict state) \<Rightarrow>
                    (case parsed_map_state loads state of
                       None \<Rightarrow> (False, m1)
                     | Some map_state \<Rightarrow>
                         (case from_dict map_state (map_option city_map m1) of
                            (Inl e, g) \<Rightarrow> (False, set_city_map g m1)
                          | (Inr _, g) \<Rightarrow>
                              let m2 = set_city_map g m1
                              in (case deserialize_commands
                                         (dict_get state ''undo_stack'' (JList [])) m2 of
                                    Inl e \<Rightarrow> (False, m2)
                                  | Inr r1 \<Rightarrow>
                                      let m3 = map_option
                                                 (\<lambda>(commands, commands_data, m).
                                                    share_entry ''undo_stack'' commands_data
                                                      (m\<lparr>undo_stack := commands\<rparr>)) r1
                                      in (case deserialize_commands
                                                 (dict_get state ''redo_stack'' (JList [])) m3 of
                                            Inl e \<Rightarrow> (False, m3)
                                          | Inr r2 \<Rightarrow>
                                              (True,
                                               map_option
                                                 (\<lambda>(commands, commands_data, m).
                                                    share_entry ''redo_stack'' commands_data
                                                      (m\<lparr>redo_stack := commands\<rparr>)) r2)))))
                | Inr _ \<Rightarrow> (False, m1))
      | Some _ \<Rightarrow> (False, Some m))"

text \<open>A JSON value that is a dictionary.\<close>

fun is_dict :: "json \<Rightarrow> bool" where
  "is_dict (JDict d) = True"
| "is_dict _ = False"


text \<open>
  An association list that stands for a Python dictionary of dictionaries has every key
  once, at both levels.
\<close>

definition keys_unique :: "cities \<Rightarrow> bool" where
  "keys_unique g = (distinct (map fst g) \<and> list_all (\<lambda>(city, nb). distinct (map fst nb)) g)"

text \<open>The items under \<^verbatim>\<open>'cities'\<close> in the dictionary of \<^verbatim>\<open>_get_safe_state\<close>.\<close>

definition cities_to_json :: "cities \<Rightarrow> (string \<times> json) list" where
  "cities_to_json g = map (\<lambda>(city, roads).
                      (city, JDict (map (\<lambda>(neighbor, costs). (neighbor, JList (map JInt costs)))
                                      roads))) g"

section \<open>Properties of the graph store\<close>

lemma has_key_iff: "has_key k d \<longleftrightarrow> k \<in> fst ` set d"
  by (simp add: has_key_def map_of_eq_None_iff)

lemma road_put_road:
  "road (put_road a b cs g) x y =
     (if x = a \<and> y = b \<and> has_key a g then Some cs else road g x y)"
  by (auto simp: road_def put_road_def has_key_def AList.map_of_map_entry AList.update_conv'
           split: option.splits)

lemma road_del_road:
  "road (del_road a b g) x y = (if x = a \<and> y = b then None else road g x y)"
  by (auto simp: road_def del_road_def AList.map_of_map_entry AList.delete_conv'
           split: option.splits)

lemma has_key_put_road [simp]: "has_key x (put_road a b cs g) = has_key x g"
  by (simp add: has_key_iff put_road_def AList.dom_map_entry)

lemma has_key_del_road [simp]: "has_key x (del_road a b g) = has_key x g"
  by (simp add: has_key_iff del_road_def AList.dom_map_entry)

lemma road_Some_has_key: "road g a b = Some cs \<Longrightarrow> has_key a g"
  by (auto simp: road_def has_key_def split: option.splits)

lemma road_update:
  "road (AList.update k nb g) x y = (if x = k then map_of nb y else road g x y)"
  by (simp add: road_def AList.update_conv')

lemma road_delete:
  "road (AList.delete k g) x y = (if x = k then None else road g x y)"
  by (simp add: road_def AList.delete_conv')

lemma map_of_map_value:
  "map_of (map (\<lambda>(k, v). (k, f v)) xs) k = map_option f (map_of xs k)"
  by (induction xs) auto

lemma road_map:
  "road (map (\<lambda>(c, nb). (c, f nb)) g) x y =
     (case map_of g x of None \<Rightarrow> None | Some nb \<Rightarrow> map_of (f nb) y)"
  by (simp add: road_def map_of_map_value split: option.splits)

lemma road_no_key: "\<not> has_key a g \<Longrightarrow> road g a b = None"
  by (simp add: road_def has_key_def)

lemma road_add_city:
  "road (snd (add_city name g)) x y = road g x y"
  by (simp add: add_city_def road_update road_no_key)

lemma road_map_None:
  "map_of g x = None \<Longrightarrow> road (map (\<lambda>(c, nb). (c, f nb)) g) x y = None"
  by (simp add: road_map)

lemma road_map_Some:
  "map_of g x = Some nb \<Longrightarrow> road (map (\<lambda>(c, nb). (c, f nb)) g) x y = map_of (f nb) y"
  by (simp add: road_map)

lemma road_remove_city:
  "road (snd (remove_city name g)) x y =
     (if has_key name g \<and> (x = name \<or> y = name) then None else road g x y)"
proof (cases "map_of g x")
  case None
  then have "road g x y = None" by (simp add: road_def)
  then show ?thesis
    using None by (auto simp add: remove_city_def Let_def road_delete road_map_None)
next
  case (Some nb)
  then have "road g x y = map_of nb y" by (simp add: road_def)
  then show ?thesis
    using Some
    by (simp add: remove_city_def Let_def road_delete road_map_Some AList.delete_conv' has_key_def)
qed

lemma symmetric_add_city: "symmetric g \<Longrightarrow> symmetric (snd (add_city name g))"
  by (simp add: symmetric_def road_add_city)

lemma symmetric_remove_city: "symmetric g \<Longrightarrow> symmetric (snd (remove_city name g))"
  by (auto simp add: symmetric_def road_remove_city)

lemma map_of_rename_neighbor:
  "map_of (case map_of nb old of None \<Rightarrow> nb
           | Some cs \<Rightarrow> AList.update new cs (AList.delete old nb)) y =
     (if map_of nb old = None then map_of nb y
      else if y = new then map_of nb old
      else if y = old then None else map_of nb y)"
  by (simp add: AList.update_conv' AList.delete_conv' split: option.splits)

lemma road_rename_city:
  assumes "symmetric g" "map_of g old = Some nb_old" "\<not> has_key new g"
  shows "road (snd (rename_city old new g)) x y =
     (if x = old \<or> y = old then None
      else road g (if x = new then old else x) (if y = new then old else y))"
proof -
  have ne: "old \<noteq> new" using assms by (auto simp: has_key_def)
  have nonew: "road g z new = None" for z
  proof -
    have "road g z new = road g new z" using assms(1) by (simp add: symmetric_def)
    then show ?thesis using assms(3) by (simp add: road_no_key)
  qed
  let ?g1 = "AList.update new nb_old (AList.delete old g)"
  have g1: "map_of ?g1 = (map_of g)(old := None, new \<mapsto> nb_old)"
    by (simp add: AList.update_conv' AList.delete_conv')
  have res: "snd (rename_city old new g) =
     map (\<lambda>(city, nb). (city, case map_of nb old of None \<Rightarrow> nb
           | Some cs \<Rightarrow> AList.update new cs (AList.delete old nb))) ?g1"
    using assms(2,3) by (simp add: rename_city_def Let_def)
  show ?thesis
  proof (cases "map_of ?g1 x")
    case None
    then have "x = old \<or> (x \<noteq> new \<and> map_of g x = None)"
      using g1 by (auto split: if_splits)
    then have "x = old \<or> (\<forall>z. road g x z = None)"
      by (auto simp: road_def)
    moreover have "road (snd (rename_city old new g)) x y = None"
      using None by (simp add: res road_map_None)
    moreover have "x \<noteq> new" using None g1 by auto
    ultimately show ?thesis by auto
  next
    case (Some nb)
    then have x: "x \<noteq> old" "(x = new \<and> nb = nb_old) \<or> (x \<noteq> new \<and> map_of g x = Some nb)"
      using g1 ne by (auto split: if_splits)
    have nb_new: "map_of nb new = None"
      using x(2) nonew[of old] nonew[of x] assms(2) by (auto simp: road_def)
    have l: "road (snd (rename_city old new g)) x y =
       (if map_of nb old = None then map_of nb y
        else if y = new then map_of nb old
        else if y = old then None else map_of nb y)"
      by (simp add: res road_map_Some[OF Some] map_of_rename_neighbor)
    have r: "road g (if x = new then old else x) z = map_of nb z" for z
      using x assms(2) by (auto simp: road_def)
    show ?thesis
      using x(1) ne nb_new by (auto simp: l r)
  qed
qed

lemma symmetric_rename_city:
  "symmetric g \<Longrightarrow> symmetric (snd (rename_city old new g))"
proof (cases "map_of g old")
  case None then show "symmetric g \<Longrightarrow> ?thesis" by (simp add: rename_city_def)
next
  case (Some nb)
  assume s: "symmetric g"
  show ?thesis
  proof (cases "has_key new g")
    case True then show ?thesis using s Some by (simp add: rename_city_def)
  next
    case False
    show ?thesis unfolding symmetric_def
      using s by (auto simp: road_rename_city[OF s Some False] symmetric_def)
  qed
qed



lemma road_put_road_fun:
  "has_key a g \<Longrightarrow> road (put_road a b cs g) = (road g)(a := (road g a)(b \<mapsto> cs))"
  by (auto simp: fun_eq_iff road_put_road)

lemma road_del_road_fun:
  "road (del_road a b g) = (road g)(a := (road g a)(b := None))"
  by (auto simp: fun_eq_iff road_del_road)

lemma symmetric_put_both:
  assumes "symmetric g" "has_key a g" "has_key b g" "a \<noteq> b \<Longrightarrow> cs = cs'"
  shows "symmetric (put_road b a cs' (put_road a b cs g))"
  using assms by (auto simp: symmetric_def road_put_road_fun)

lemma symmetric_put_self:
  assumes "symmetric g" "has_key a g"
  shows "symmetric (put_road a a cs g)"
  using assms by (auto simp: symmetric_def road_put_road_fun)

lemma symmetric_del_both_roads:
  assumes "symmetric g"
  shows "symmetric (del_road b a (del_road a b g))"
  using assms by (auto simp: symmetric_def road_del_road_fun)

lemma symmetric_del_self:
  assumes "symmetric g"
  shows "symmetric (del_road a a g)"
  using assms by (auto simp: symmetric_def road_del_road_fun)

lemma symmetric_del_both: 
  assumes "symmetric g" shows "symmetric (snd (del_both a b g))"
proof (cases "road (del_road a b g) b a")
  case None
  then have "a = b \<or> road g a b = None"
    using assms by (auto simp: road_del_road symmetric_def split: if_splits)
  then have "symmetric (del_road a b g)"
  proof
    assume "a = b" then show ?thesis using assms by (simp add: symmetric_del_self)
  next
    assume n: "road g a b = None"
    have "road (del_road a b g) = road g"
      using n by (auto simp: fun_eq_iff road_del_road)
    then show ?thesis using assms by (simp add: symmetric_def)
  qed
  then show ?thesis using None by (simp add: del_both_def)
next
  case (Some cs)
  then show ?thesis using assms by (simp add: del_both_def symmetric_del_both_roads)
qed


lemma road_put_road_same: "has_key a g \<Longrightarrow> road (put_road a b cs g) a b = Some cs"
  by (simp add: road_put_road)

lemma road_put_road_other: "x \<noteq> a \<or> y \<noteq> b \<Longrightarrow> road (put_road a b cs g) x y = road g x y"
  by (auto simp add: road_put_road)

lemma symmetric_if:
  "(P \<Longrightarrow> symmetric x) \<Longrightarrow> (\<not> P \<Longrightarrow> symmetric y) \<Longrightarrow> symmetric (if P then x else y)"
  by simp

lemma symmetric_add_road:
  assumes "symmetric g" shows "symmetric (snd (add_road a b c g))"
proof (cases "has_key a g \<and> has_key b g")
  case False
  then show ?thesis using assms by (auto simp: add_road_def)
next
  case True
  let ?g1 = "if road g a b = None then put_road b a [] (put_road a b [] g) else g"
  have k1: "has_key a ?g1" "has_key b ?g1" using True by auto
  have s1: "symmetric ?g1"
    using assms True by (simp add: symmetric_put_both)
  have "road ?g1 a b \<noteq> None"
    using True by (cases "a = b") (auto simp: road_put_road_same road_put_road_other)
  then obtain cs where cs: "road ?g1 a b = Some cs" by blast
  let ?g2 = "put_road a b (cs @ [c]) ?g1"
  let ?cs21 = "if a = b then cs @ [c] else cs"
  have "road ?g1 b a = Some cs"
    using cs s1 unfolding symmetric_def by metis
  then have r2: "road ?g2 b a = Some ?cs21"
    using k1 by (cases "a = b") (simp_all add: road_put_road_same road_put_road_other)
  have res: "snd (add_road a b c g) = put_road b a (?cs21 @ [c]) ?g2"
    using True by (simp only: add_road_def Let_def cs r2 option.case snd_conv simp_thms if_False)
  show ?thesis
    unfolding res using s1 k1 by (intro symmetric_put_both) auto
qed

lemma symmetric_remove_road:
  assumes "symmetric g" shows "symmetric (snd (remove_road a b co g))"
proof (cases "has_key a g \<and> has_key b g")
  case False
  then show ?thesis using assms by (auto simp: remove_road_def)
next
  case True
  show ?thesis
  proof (cases "road g a b")
    case None
    then show ?thesis using assms True by (simp add: remove_road_def)
  next
    case (Some cs)
    show ?thesis
    proof (cases co)
      case None
      then show ?thesis using assms True Some by (simp add: remove_road_def symmetric_del_both)
    next
      case c: (Some c)
      show ?thesis
      proof (cases "c \<in> set cs")
        case False
        then show ?thesis using assms True Some c by (simp add: remove_road_def)
      next
        case in_cs: True
        let ?g1 = "put_road a b (remove1 c cs) g"
        let ?cs21 = "if a = b then remove1 c cs else cs"
        let ?g2 = "put_road b a (remove1 c ?cs21) ?g1"
        have "road g b a = Some cs" using Some assms unfolding symmetric_def by metis
        then have r1: "road ?g1 b a = Some ?cs21"
          using True
          by (cases "a = b") (simp_all add: road_put_road_same road_put_road_other)
        have s1: "c \<notin> set ?cs21 \<Longrightarrow> symmetric ?g1"
          using in_cs assms True by (cases "a = b") (auto simp: symmetric_put_self)
        have s2: "symmetric ?g2"
          using assms True
          by (intro symmetric_put_both) auto
        have res: "snd (remove_road a b co g) =
            (if c \<notin> set ?cs21 then ?g1
             else if road ?g2 a b = Some [] then snd (del_both a b ?g2) else ?g2)"
          using True in_cs
          by (simp only: remove_road_def Let_def Some c r1 option.case simp_thms if_False if_True)
             (simp only: if_distrib[of snd] snd_conv)
        show ?thesis
          unfolding res
          by (rule symmetric_if, erule s1, rule symmetric_if, rule symmetric_del_both, rule s2, rule s2)
      qed
    qed
  qed
qed

lemma symmetric_update_road_cost:
  assumes "symmetric g" shows "symmetric (snd (update_road_cost a b old new g))"
proof (cases "has_key a g \<and> has_key b g")
  case False
  then show ?thesis using assms by (auto simp: update_road_cost_def)
next
  case True
  show ?thesis
  proof (cases "road g a b")
    case None
    then show ?thesis using assms True by (simp add: update_road_cost_def)
  next
    case (Some cs)
    show ?thesis
    proof (cases "old \<in> set cs")
      case False
      then show ?thesis using assms True Some by (simp add: update_road_cost_def)
    next
      case in_cs: True
      let ?i = "list_index cs old"
      let ?g1 = "put_road a b (cs[?i := new]) g"
      let ?cs21 = "if a = b then cs[?i := new] else cs"
      have il: "?i < length cs" using in_cs by (induction cs) auto
      have "road g b a = Some cs" using Some assms unfolding symmetric_def by metis
      then have r1: "road ?g1 b a = Some ?cs21"
        using True
        by (cases "a = b") (simp_all add: road_put_road_same road_put_road_other)
      have len: "\<not> length ?cs21 \<le> ?i" using il by simp
      have res: "snd (update_road_cost a b old new g) = put_road b a (?cs21[?i := new]) ?g1"
        using True in_cs len
        by (simp only: update_road_cost_def Let_def Some r1 option.case simp_thms if_False if_True snd_conv)
      show ?thesis
        unfolding res using assms True by (intro symmetric_put_both) auto
    qed
  qed
qed

lemma symmetric_apply_op: "symmetric g \<Longrightarrow> symmetric (snd (apply_op opn g))"
  by (cases opn)
     (simp_all add: symmetric_add_city symmetric_remove_city symmetric_rename_city
        symmetric_add_road symmetric_remove_road symmetric_update_road_cost)

lemma symmetric_run: "symmetric g \<Longrightarrow> symmetric (run ops g)"
  unfolding run_def by (induction ops arbitrary: g) (simp_all add: symmetric_apply_op)

lemma symmetric_empty: "symmetric []"
  by (simp add: symmetric_def road_def)

lemma update_road_cost_symmetric:
  assumes "symmetric g"
  shows "fst (update_road_cost a b old new g) = Inr True \<or> fst (update_road_cost a b old new g) = Inr False"
proof (cases "has_key a g \<and> has_key b g")
  case False
  then show ?thesis using assms by (auto simp: update_road_cost_def)
next
  case True
  show ?thesis
  proof (cases "road g a b")
    case None
    then show ?thesis using assms True by (simp add: update_road_cost_def)
  next
    case (Some cs)
    show ?thesis
    proof (cases "old \<in> set cs")
      case False
      then show ?thesis using assms True Some by (simp add: update_road_cost_def)
    next
      case in_cs: True
      let ?i = "list_index cs old"
      let ?g1 = "put_road a b (cs[?i := new]) g"
      let ?cs21 = "if a = b then cs[?i := new] else cs"
      have il: "?i < length cs" using in_cs by (induction cs) auto
      have "road g b a = Some cs" using Some assms unfolding symmetric_def by metis
      then have r1: "road ?g1 b a = Some ?cs21"
        using True
        by (cases "a = b") (simp_all add: road_put_road_same road_put_road_other)
      have len: "\<not> length ?cs21 \<le> ?i" using il by simp
      have res: "fst (update_road_cost a b old new g) = Inr True"
        using True in_cs len
        by (simp only: update_road_cost_def Let_def Some r1 option.case simp_thms if_False if_True fst_conv)
      show ?thesis using res by simp
    qed
  qed
qed

text \<open>
  Claim C9. In every state reached from the empty map by calls of the six mutating methods,
  the cost list stored under A\<rightarrow>B is the cost list stored under B\<rightarrow>A as an ordered
  sequence (both are absent together), so the index that \<^verbatim>\<open>update_road_cost\<close> computes in the
  first direction is in range in the second: the method never raises there.
\<close>

theorem ordered_symmetry_reachable:
  "road (run ops []) a b = road (run ops []) b a \<and>
   (\<forall>e. fst (update_road_cost a b old_cost new_cost (run ops [])) \<noteq> Inl e)"
proof -
  have s: "symmetric (run ops [])" by (rule symmetric_run [OF symmetric_empty])
  then have "road (run ops []) a b = road (run ops []) b a" by (simp add: symmetric_def)
  moreover have "\<forall>e. fst (update_road_cost a b old_cost new_cost (run ops [])) \<noteq> Inl e"
    using update_road_cost_symmetric [OF s, of a b old_cost new_cost] by auto
  ultimately show ?thesis by simp
qed

theorem ordered_symmetry_reachable_witness:
  "road (run [AddCity ''X'', AddCity ''Y'', AddRoad ''X'' ''Y'' 5, AddRoad ''Y'' ''X'' 3,
              UpdateRoadCost ''Y'' ''X'' 5 7] []) ''X'' ''Y'' = Some [7, 3] \<and>
   road (run [AddCity ''X'', AddCity ''Y'', AddRoad ''X'' ''Y'' 5, AddRoad ''Y'' ''X'' 3,
              UpdateRoadCost ''Y'' ''X'' 5 7] []) ''Y'' ''X'' = Some [7, 3]"
  using ordered_symmetry_reachable [of "[AddCity ''X'', AddCity ''Y'', AddRoad ''X'' ''Y'' 5,
     AddRoad ''Y'' ''X'' 3, UpdateRoadCost ''Y'' ''X'' 5 7]" "''X''" "''Y''" 0 0]
  by (simp add: run_def add_city_def add_road_def update_road_cost_def has_key_def road_def
       put_road_def)

text \<open>
  Claim C1. In every state reached by a sequence of graph store operations, the entry
  A\<rightarrow>B exists iff B\<rightarrow>A exists, and the two cost lists are equal as multisets.
\<close>

theorem multiset_symmetry_reachable:
  "(road (run ops []) a b = None \<longleftrightarrow> road (run ops []) b a = None) \<and>
   mset (costs (run ops []) a b) = mset (costs (run ops []) b a)"
proof -
  have "symmetric (run ops [])" by (rule symmetric_run [OF symmetric_empty])
  then have "road (run ops []) a b = road (run ops []) b a" by (simp add: symmetric_def)
  then show ?thesis by (simp add: costs_def)
qed

theorem multiset_symmetry_reachable_witness:
  "mset (costs (run [AddCity ''X'', AddCity ''Y'', AddRoad ''X'' ''Y'' 5, AddRoad ''Y'' ''X'' 3,
              RemoveRoad ''Y'' ''X'' (Some 5)] []) ''X'' ''Y'') = {#3#} \<and>
   mset (costs (run [AddCity ''X'', AddCity ''Y'', AddRoad ''X'' ''Y'' 5, AddRoad ''Y'' ''X'' 3,
              RemoveRoad ''Y'' ''X'' (Some 5)] []) ''Y'' ''X'') = {#3#}"
  using multiset_symmetry_reachable [of "[AddCity ''X'', AddCity ''Y'', AddRoad ''X'' ''Y'' 5,
     AddRoad ''Y'' ''X'' 3, RemoveRoad ''Y'' ''X'' (Some 5)]" "''X''" "''Y''"]
  by (simp add: run_def add_city_def add_road_def remove_road_def has_key_def road_def
       put_road_def costs_def)



lemma remove1_eq_Nil_iff: "x \<in> set xs \<Longrightarrow> remove1 x xs = [] \<longleftrightarrow> xs = [x]"
  by (cases xs) (auto split: if_splits)

text \<open>
  Claim C3, as amended. For an existing pair of distinct cities whose two directions hold the
  same cost list, \<^verbatim>\<open>remove_road\<close> with an explicit cost that is not in the list returns
  \<^verbatim>\<open>True\<close> and leaves the map as it is; with a cost that is in the list it returns \<^verbatim>\<open>True\<close>,
  removes the first occurrence from each direction, and deletes the entry of both directions
  when the list becomes empty; no other entry changes.
\<close>

theorem remove_road_explicit_cost:
  assumes "has_key a g" "has_key b g" "a \<noteq> b"
    and "road g a b = Some cs" "road g b a = Some cs"
  shows "(c \<notin> set cs \<longrightarrow> remove_road a b (Some c) g = (Inr True, g)) \<and>
         (c \<in> set cs \<longrightarrow>
            fst (remove_road a b (Some c) g) = Inr True \<and>
            (\<forall>x y. road (snd (remove_road a b (Some c) g)) x y =
               (if (x = a \<and> y = b) \<or> (x = b \<and> y = a)
                then (if remove1 c cs = [] then None else Some (remove1 c cs))
                else road g x y)))"
proof (intro conjI impI)
  assume "c \<notin> set cs"
  then show "remove_road a b (Some c) g = (Inr True, g)"
    using assms by (simp add: remove_road_def)
next
  assume in_cs: "c \<in> set cs"
  let ?g1 = "put_road a b (remove1 c cs) g"
  let ?g2 = "put_road b a (remove1 c cs) ?g1"
  have r1: "road ?g1 b a = Some cs"
    using assms by (simp add: road_put_road_other)
  have r2: "road ?g2 a b = Some (remove1 c cs)"
    using assms by (simp add: road_put_road_other road_put_road_same)
  have r3: "road (del_road a b ?g2) b a = Some (remove1 c cs)"
    using assms by (simp add: road_del_road road_put_road_same)
  have res: "remove_road a b (Some c) g =
      (if remove1 c cs = [] then (Inr True, del_road b a (del_road a b ?g2)) else (Inr True, ?g2))"
    using assms(1,2) in_cs
    by (simp only: remove_road_def Let_def assms(4) r1 r2 option.case simp_thms if_False if_True
          del_both_def r3 option.inject)
  show "fst (remove_road a b (Some c) g) = Inr True"
    by (simp add: res)
  show "\<forall>x y. road (snd (remove_road a b (Some c) g)) x y =
               (if (x = a \<and> y = b) \<or> (x = b \<and> y = a)
                then (if remove1 c cs = [] then None else Some (remove1 c cs))
                else road g x y)"
    using assms(1,2,3) by (auto simp: res road_del_road road_put_road)
qed

theorem remove_road_explicit_cost_witness:
  "remove_road ''X'' ''Y'' (Some 7) [(''X'', [(''Y'', [5, 5])]), (''Y'', [(''X'', [5, 5])])] =
     (Inr True, [(''X'', [(''Y'', [5, 5])]), (''Y'', [(''X'', [5, 5])])]) \<and>
   road (snd (remove_road ''X'' ''Y'' (Some 5)
      [(''X'', [(''Y'', [5, 5])]), (''Y'', [(''X'', [5, 5])])])) ''Y'' ''X'' = Some [5]"
  using remove_road_explicit_cost [of "''X''" "[(''X'', [(''Y'', [5, 5])]), (''Y'', [(''X'', [5, 5])])]"
     "''Y''" "[5, 5]" 7]
    remove_road_explicit_cost [of "''X''" "[(''X'', [(''Y'', [5, 5])]), (''Y'', [(''X'', [5, 5])])]"
     "''Y''" "[5, 5]" 5]
  by (simp add: has_key_def road_def)

text \<open>
  The claim as stated fails: with the single road X-Y of cost 5, removing cost 7 returns
  \<^verbatim>\<open>True\<close>, not \<^verbatim>\<open>False\<close>.
\<close>

theorem remove_road_absent_cost_counterexample:
  "run [AddCity ''X'', AddCity ''Y'', AddRoad ''X'' ''Y'' 5] [] =
     [(''X'', [(''Y'', [5])]), (''Y'', [(''X'', [5])])] \<and>
   fst (remove_road ''X'' ''Y'' (Some 7) [(''X'', [(''Y'', [5])]), (''Y'', [(''X'', [5])])]) = Inr True \<and>
   fst (remove_road ''X'' ''Y'' (Some 7) [(''X'', [(''Y'', [5])]), (''Y'', [(''X'', [5])])]) \<noteq> Inr False"
  by (simp add: run_def add_city_def add_road_def remove_road_def has_key_def road_def put_road_def)

subsection \<open>What each operation leaves behind in a symmetric map\<close>

lemma has_key_update: "has_key x (AList.update k v g) = (x = k \<or> has_key x g)"
  by (simp add: has_key_def AList.update_conv')

lemma has_key_delete: "has_key x (AList.delete k g) = (x \<noteq> k \<and> has_key x g)"
  by (simp add: has_key_def AList.delete_conv')

lemma has_key_map_value: "has_key x (map (\<lambda>(c, nb). (c, f nb)) g) = has_key x g"
  by (simp add: has_key_def map_of_map_value)

lemma has_key_add_city: "has_key x (snd (add_city name g)) = (x = name \<or> has_key x g)"
  by (auto simp: add_city_def has_key_update)

lemma has_key_remove_city:
  "has_key name g \<Longrightarrow> has_key x (snd (remove_city name g)) = (x \<noteq> name \<and> has_key x g)"
  by (simp add: remove_city_def has_key_delete has_key_map_value)

lemma has_key_rename_city:
  "has_key old g \<Longrightarrow> \<not> has_key new g \<Longrightarrow>
   has_key x (snd (rename_city old new g)) = (x = new \<or> (x \<noteq> old \<and> has_key x g))"
proof -
  assume a: "has_key old g" "\<not> has_key new g"
  then obtain nb where nb: "map_of g old = Some nb" by (auto simp: has_key_def)
  show ?thesis
    using a(2) by (simp add: rename_city_def Let_def nb has_key_map_value has_key_update has_key_delete)
qed

lemma add_road_result:
  assumes "symmetric g" "has_key a g" "has_key b g" "a \<noteq> b"
  shows "\<exists>G. add_road a b c g = (Inr True, G) \<and> (\<forall>x. has_key x G = has_key x g) \<and>
           road G = set_pair a b (Some (costs g a b @ [c])) (road g)"
proof -
  let ?g1 = "if road g a b = None then put_road b a [] (put_road a b [] g) else g"
  let ?cs = "costs g a b"
  have ba: "road g b a = road g a b" using assms(1) by (simp add: symmetric_def)
  have r1: "road ?g1 a b = Some ?cs"
    using assms(2-4) by (auto simp: costs_def road_put_road_same road_put_road_other)
  let ?g2 = "put_road a b (?cs @ [c]) ?g1"
  have r2: "road ?g2 b a = Some ?cs"
    using assms(2-4) ba by (auto simp: costs_def road_put_road_same road_put_road_other)
  have res: "add_road a b c g = (Inr True, put_road b a (?cs @ [c]) ?g2)"
    using assms(2,3) by (simp only: add_road_def Let_def r1 r2 option.case simp_thms if_False)
  have k: "has_key x (put_road b a (?cs @ [c]) ?g2) = has_key x g" for x
    by simp
  have r: "road (put_road b a (?cs @ [c]) ?g2) = set_pair a b (Some (?cs @ [c])) (road g)"
    using assms(2-4) ba
    by (auto simp: fun_eq_iff set_pair_def road_put_road)
  show ?thesis using res k r by blast
qed

lemma remove_road_result:
  assumes "has_key a g" "has_key b g" "a \<noteq> b"
    and "road g a b = Some cs" "road g b a = Some cs" "c \<in> set cs"
  shows "\<exists>G. remove_road a b (Some c) g = (Inr True, G) \<and> (\<forall>x. has_key x G = has_key x g) \<and>
           road G = set_pair a b (if remove1 c cs = [] then None else Some (remove1 c cs)) (road g)"
proof -
  let ?g1 = "put_road a b (remove1 c cs) g"
  let ?g2 = "put_road b a (remove1 c cs) ?g1"
  have r1: "road ?g1 b a = Some cs"
    using assms by (simp add: road_put_road_other)
  have r2: "road ?g2 a b = Some (remove1 c cs)"
    using assms by (simp add: road_put_road_other road_put_road_same)
  have r3: "road (del_road a b ?g2) b a = Some (remove1 c cs)"
    using assms by (simp add: road_del_road road_put_road_same)
  let ?G = "if remove1 c cs = [] then del_road b a (del_road a b ?g2) else ?g2"
  have res: "remove_road a b (Some c) g = (Inr True, ?G)"
    using assms(1,2,6)
    by (simp only: remove_road_def Let_def assms(4) r1 r2 option.case simp_thms if_False if_True
          del_both_def r3 option.inject if_distrib[of "Pair (Inr True)"])
  have k: "has_key x ?G = has_key x g" for x by simp
  have r: "road ?G = set_pair a b (if remove1 c cs = [] then None else Some (remove1 c cs)) (road g)"
    using assms(1-3) by (auto simp: fun_eq_iff set_pair_def road_del_road road_put_road)
  show ?thesis using res k r by blast
qed

lemma list_index_less: "x \<in> set xs \<Longrightarrow> list_index xs x < length xs"
  by (induction xs) auto

lemma update_road_cost_result:
  assumes "has_key a g" "has_key b g" "a \<noteq> b"
    and "road g a b = Some cs" "road g b a = Some cs" "old \<in> set cs"
  shows "\<exists>G. update_road_cost a b old new g = (Inr True, G) \<and> (\<forall>x. has_key x G = has_key x g) \<and>
           road G = set_pair a b (Some (cs[list_index cs old := new])) (road g)"
proof -
  let ?i = "list_index cs old"
  let ?g1 = "put_road a b (cs[?i := new]) g"
  have r1: "road ?g1 b a = Some cs"
    using assms by (simp add: road_put_road_other)
  have len: "\<not> length cs \<le> ?i" using list_index_less[OF assms(6)] by simp
  let ?G = "put_road b a (cs[?i := new]) ?g1"
  have res: "update_road_cost a b old new g = (Inr True, ?G)"
    using assms(1,2,6) len
    by (simp only: update_road_cost_def Let_def assms(4) r1 option.case simp_thms if_False if_True)
  have k: "has_key x ?G = has_key x g" for x by simp
  have r: "road ?G = set_pair a b (Some (cs[?i := new])) (road g)"
    using assms(1-3) by (auto simp: fun_eq_iff set_pair_def road_put_road)
  show ?thesis using res k r by blast
qed

subsection \<open>Undo after execute, execute after undo\<close>

lemma symmetric_set_pair:
  "road g' = set_pair a b v (road g) \<Longrightarrow> symmetric g \<Longrightarrow> symmetric g'"
  by (auto simp: symmetric_def set_pair_def)

lemma costs_set_pair:
  "road g' = set_pair a b v (road g) \<Longrightarrow> costs g' a b = (case v of None \<Rightarrow> [] | Some cs \<Rightarrow> cs)"
  by (simp add: costs_def set_pair_def)

lemma set_pair_twice [simp]: "set_pair a b v (set_pair a b w r) = set_pair a b v r"
  by (auto simp: set_pair_def fun_eq_iff)

lemma restored_set_pair:
  assumes "\<forall>x. has_key x g' = has_key x g" "road g' = set_pair a b v (road g0)"
    "road g = set_pair a b w (road g0)" "map_option mset v = map_option mset w"
  shows "restored g g'"
  using assms by (auto simp: restored_def set_pair_def)

lemma set_pair_same:
  "r a b = v \<Longrightarrow> r b a = v \<Longrightarrow> set_pair a b v r = r"
  by (auto simp: set_pair_def fun_eq_iff)

lemma law_add_road:
  assumes v: "valid g" and ne: "a \<noteq> b" and ex: "add_road a b c g = (Inr True, g1)"
  shows "\<exists>g2 g3. remove_road a b (Some c) g1 = (Inr True, g2) \<and>
            add_road a b c g2 = (Inr True, g3) \<and> restored g g2 \<and> restored g1 g3 \<and>
            (c \<notin> set (costs g a b) \<longrightarrow> road g2 = road g \<and> road g3 = road g1)"
proof -
  have s: "symmetric g" and n: "\<And>x y. road g x y \<noteq> Some []" using v by (auto simp: valid_def)
  have k: "has_key a g" "has_key b g"
    using ex by (auto simp: add_road_def split: if_splits)
  let ?cs = "costs g a b"
  have ba: "road g b a = road g a b" using s by (simp add: symmetric_def)
  from add_road_result[OF s k ne, of c] ex
  have k1: "\<forall>x. has_key x g1 = has_key x g"
    and r1: "road g1 = set_pair a b (Some (?cs @ [c])) (road g)" by auto
  have s1: "symmetric g1" using r1 s by (rule symmetric_set_pair)
  let ?u = "remove1 c (?cs @ [c])"
  have "road g1 a b = Some (?cs @ [c])" "road g1 b a = Some (?cs @ [c])"
    using r1 by (simp_all add: set_pair_def)
  from remove_road_result[OF _ _ ne this, of c] k k1
  obtain g2 where u: "remove_road a b (Some c) g1 = (Inr True, g2)"
    and k2: "\<forall>x. has_key x g2 = has_key x g"
    and r2: "road g2 = set_pair a b (if ?u = [] then None else Some ?u) (road g)"
    by (auto simp: r1)
  have s2: "symmetric g2" using r2 s by (rule symmetric_set_pair)
  have c2: "costs g2 a b = ?u" using costs_set_pair[OF r2] by simp
  from add_road_result[OF s2 _ _ ne, of c] k k2
  obtain g3 where e: "add_road a b c g2 = (Inr True, g3)"
    and k3: "\<forall>x. has_key x g3 = has_key x g"
    and r3: "road g3 = set_pair a b (Some (?u @ [c])) (road g)"
    by (auto simp: r2 c2)
  have g: "road g = set_pair a b (road g a b) (road g)"
    using ba by (simp add: set_pair_same)
  have m: "map_option mset (if ?u = [] then None else Some ?u) = map_option mset (road g a b)"
  proof (cases "road g a b")
    case None then show ?thesis by (simp add: costs_def)
  next
    case (Some cs)
    then have "cs \<noteq> []" using n by auto
    then have "remove1 c (cs @ [c]) \<noteq> []" by (cases cs) auto
    moreover have "mset (remove1 c (cs @ [c])) = mset cs" by simp
    ultimately show ?thesis using Some by (simp add: costs_def)
  qed
  have res2: "restored g g2"
    using k2 r2 g m by (rule restored_set_pair)
  have res3: "restored g1 g3"
    using k1 k3 by (intro restored_set_pair[OF _ r3 r1]) auto
  have ex: "road g2 = road g \<and> road g3 = road g1" if "c \<notin> set ?cs"
  proof -
    have u: "?u = ?cs" using that by (simp add: remove1_append remove1_idem)
    have "(if ?cs = [] then None else Some ?cs) = road g a b"
      using n by (auto simp: costs_def split: option.splits)
    then have h: "(if ?u = [] then None else Some ?u) = road g a b"
      by (simp only: u)
    have "road g2 = set_pair a b (road g a b) (road g)" by (simp only: r2 h)
    then have "road g2 = road g" using ba by (simp add: set_pair_same)
    moreover have "road g3 = road g1" using r3 r1 u by simp
    ultimately show ?thesis by simp
  qed
  show ?thesis using u e res2 res3 ex by blast
qed


lemma road_costs: "(\<And>x y. road g x y \<noteq> Some []) \<Longrightarrow> c \<in> set (costs g a b) \<Longrightarrow> road g a b = Some (costs g a b)"
  by (cases "road g a b") (auto simp: costs_def)

lemma law_remove_road:
  assumes v: "valid g" and ne: "a \<noteq> b" and c: "c \<in> set (costs g a b)"
    and ex: "remove_road a b (Some c) g = (Inr True, g1)"
  shows "\<exists>g2 g3. add_road a b c g1 = (Inr True, g2) \<and>
            remove_road a b (Some c) g2 = (Inr True, g3) \<and> restored g g2 \<and> restored g1 g3 \<and>
            (remove1 c (costs g a b) @ [c] = costs g a b \<longrightarrow> road g2 = road g \<and> road g3 = road g1)"
proof -
  have s: "symmetric g" and n: "\<And>x y. road g x y \<noteq> Some []" using v by (auto simp: valid_def)
  have k: "has_key a g" "has_key b g"
    using ex by (auto simp: remove_road_def split: if_splits)
  let ?cs = "costs g a b"
  let ?xs = "remove1 c ?cs"
  have ab: "road g a b = Some ?cs" using n c by (rule road_costs)
  have ba: "road g b a = Some ?cs" using ab s by (simp add: symmetric_def)
  from remove_road_result[OF k ne ab ba c] ex
  have k1: "\<forall>x. has_key x g1 = has_key x g"
    and r1: "road g1 = set_pair a b (if ?xs = [] then None else Some ?xs) (road g)" by auto
  have s1: "symmetric g1" using r1 s by (rule symmetric_set_pair)
  have c1: "costs g1 a b = ?xs" using costs_set_pair[OF r1] by simp
  from add_road_result[OF s1 _ _ ne, of c] k k1
  obtain g2 where u: "add_road a b c g1 = (Inr True, g2)"
    and k2: "\<forall>x. has_key x g2 = has_key x g"
    and r2: "road g2 = set_pair a b (Some (?xs @ [c])) (road g)"
    by (auto simp: r1 c1)
  let ?ys = "remove1 c (?xs @ [c])"
  have "road g2 a b = Some (?xs @ [c])" "road g2 b a = Some (?xs @ [c])"
    using r2 by (simp_all add: set_pair_def)
  from remove_road_result[OF _ _ ne this, of c] k k2
  obtain g3 where e: "remove_road a b (Some c) g2 = (Inr True, g3)"
    and k3: "\<forall>x. has_key x g3 = has_key x g"
    and r3: "road g3 = set_pair a b (if ?ys = [] then None else Some ?ys) (road g)"
    by (auto simp: r2)
  have g: "road g = set_pair a b (Some ?cs) (road g)"
    using ab ba by (simp add: set_pair_same)
  have "mset (?xs @ [c]) = mset ?cs" using c by simp
  then have res2: "restored g g2"
    using k2 r2 g by (intro restored_set_pair[OF _ r2 g]) auto
  have my: "mset ?ys = mset ?xs" by simp
  then have "?ys = [] \<longleftrightarrow> ?xs = []" by (metis mset_zero_iff)
  then have "map_option mset (if ?ys = [] then None else Some ?ys) =
             map_option mset (if ?xs = [] then None else Some ?xs)"
    using my by simp
  then have res3: "restored g1 g3"
    using k1 k3 by (intro restored_set_pair[OF _ r3 r1]) auto
  have ex: "road g2 = road g \<and> road g3 = road g1" if o: "?xs @ [c] = ?cs"
  proof -
    have "road g2 = set_pair a b (Some ?cs) (road g)" by (simp only: r2 o)
    then have "road g2 = road g" using g by simp
    moreover have "?ys = ?xs" by (simp only: o)
    then have "road g3 = road g1" by (simp only: r3 r1)
    ultimately show ?thesis by simp
  qed
  show ?thesis using u e res2 res3 ex by blast
qed

lemma list_index_nth: "x \<in> set xs \<Longrightarrow> xs ! list_index xs x = x"
  by (induction xs) auto

lemma list_index_update_fresh:
  "x \<in> set xs \<Longrightarrow> y \<notin> set xs \<Longrightarrow> list_index (xs[list_index xs x := y]) y = list_index xs x"
  by (induction xs) auto

lemma mset_replace:
  "x \<in> set xs \<Longrightarrow> mset (xs[list_index xs x := y]) = add_mset y (mset xs - {#x#})"
  by (induction xs) auto

lemma law_update_road:
  assumes v: "valid g" and ne: "a \<noteq> b"
    and ex: "update_road_cost a b old new g = (Inr True, g1)"
  shows "\<exists>g2 g3. update_road_cost a b new old g1 = (Inr True, g2) \<and>
            update_road_cost a b old new g2 = (Inr True, g3) \<and> restored g g2 \<and> restored g1 g3 \<and>
            (new \<notin> set (costs g a b) \<longrightarrow> road g2 = road g \<and> road g3 = road g1)"
proof -
  have s: "symmetric g" using v by (auto simp: valid_def)
  have k: "has_key a g" "has_key b g"
    using ex by (auto simp: update_road_cost_def split: if_splits)
  obtain cs where ab: "road g a b = Some cs" and o: "old \<in> set cs"
    using ex k by (auto simp: update_road_cost_def split: if_splits option.splits)
  have cs: "costs g a b = cs" using ab by (simp add: costs_def)
  have ba: "road g b a = Some cs" using ab s by (simp add: symmetric_def)
  let ?xs = "cs[list_index cs old := new]"
  from update_road_cost_result[OF k ne ab ba o, of new] ex
  have k1: "\<forall>x. has_key x g1 = has_key x g"
    and r1: "road g1 = set_pair a b (Some ?xs) (road g)" by auto
  have nx: "new \<in> set ?xs"
    using list_index_less[OF o] by (simp add: set_update_memI)
  let ?ys = "?xs[list_index ?xs new := old]"
  have "road g1 a b = Some ?xs" "road g1 b a = Some ?xs"
    using r1 by (simp_all add: set_pair_def)
  from update_road_cost_result[OF _ _ ne this nx, of old] k k1
  obtain g2 where u: "update_road_cost a b new old g1 = (Inr True, g2)"
    and k2: "\<forall>x. has_key x g2 = has_key x g"
    and r2: "road g2 = set_pair a b (Some ?ys) (road g)"
    by (auto simp: r1)
  have oy: "old \<in> set ?ys"
    using list_index_less[OF nx] by (simp add: set_update_memI)
  let ?zs = "?ys[list_index ?ys old := new]"
  have "road g2 a b = Some ?ys" "road g2 b a = Some ?ys"
    using r2 by (simp_all add: set_pair_def)
  from update_road_cost_result[OF _ _ ne this oy, of new] k k2
  obtain g3 where e: "update_road_cost a b old new g2 = (Inr True, g3)"
    and k3: "\<forall>x. has_key x g3 = has_key x g"
    and r3: "road g3 = set_pair a b (Some ?zs) (road g)"
    by (auto simp: r2)
  have g: "road g = set_pair a b (Some cs) (road g)"
    using ab ba by (simp add: set_pair_same)
  have mx: "mset ?xs = add_mset new (mset cs - {#old#})" using o by (rule mset_replace)
  have my: "mset ?ys = mset cs"
    using mset_replace[OF nx, of old] mx o by simp
  have mz: "mset ?zs = mset ?xs"
    using mset_replace[OF oy, of new] my mx by simp
  have res2: "restored g g2"
    using k2 my by (intro restored_set_pair[OF _ r2 g]) auto
  have res3: "restored g1 g3"
    using k1 k3 mz by (intro restored_set_pair[OF _ r3 r1]) auto
  have ex: "road g2 = road g \<and> road g3 = road g1" if f: "new \<notin> set cs"
  proof -
    have "list_index ?xs new = list_index cs old" using o f by (rule list_index_update_fresh)
    then have "?ys = cs[list_index cs old := old]" by simp
    then have y: "?ys = cs" using list_index_nth[OF o] by (metis list_update_id)
    have "road g2 = set_pair a b (Some cs) (road g)" by (simp only: r2 y)
    then have "road g2 = road g" using g by simp
    moreover have "road g3 = road g1" by (simp only: r3 r1 y)
    ultimately show ?thesis by simp
  qed
  show ?thesis using u e res2 res3 ex cs by blast
qed


lemma restored_exact:
  "\<forall>x. has_key x g' = has_key x g \<Longrightarrow> road g' = road g \<Longrightarrow> restored g g'"
  by (simp add: restored_def)

lemma add_city_True: "\<not> has_key name g \<Longrightarrow> add_city name g = (Inr True, snd (add_city name g))"
  by (simp add: add_city_def)

lemma remove_city_True: "has_key name g \<Longrightarrow> remove_city name g = (Inr True, snd (remove_city name g))"
  by (simp add: remove_city_def Let_def)

lemma rename_city_True:
  "has_key old g \<Longrightarrow> \<not> has_key new g \<Longrightarrow>
   rename_city old new g = (Inr True, snd (rename_city old new g))"
  by (auto simp: rename_city_def Let_def has_key_def)

lemma road_absent_city:
  "symmetric g \<Longrightarrow> \<not> has_key name g \<Longrightarrow> road g x name = None \<and> road g name x = None"
  by (metis road_no_key symmetric_def)

lemma law_add_city:
  assumes v: "valid g" and ex: "add_city name g = (Inr True, g1)"
  shows "\<exists>g2 g3. remove_city name g1 = (Inr True, g2) \<and> add_city name g2 = (Inr True, g3) \<and>
           restored g g2 \<and> restored g1 g3 \<and> road g2 = road g \<and> road g3 = road g1"
proof -
  have s: "symmetric g" using v by (simp add: valid_def)
  have nk: "\<not> has_key name g" using ex by (auto simp: add_city_def split: if_splits)
  have g1: "g1 = snd (add_city name g)" using ex by simp
  have k1: "has_key x g1 = (x = name \<or> has_key x g)" for x by (simp add: g1 has_key_add_city)
  have r1: "road g1 = road g" by (simp add: fun_eq_iff g1 road_add_city)
  let ?g2 = "snd (remove_city name g1)"
  have u: "remove_city name g1 = (Inr True, ?g2)" by (rule remove_city_True) (simp add: k1)
  have k2: "has_key x ?g2 = has_key x g" for x
    using nk by (auto simp: has_key_remove_city k1)
  have r2: "road ?g2 = road g"
    using road_absent_city[OF s nk] by (auto simp: fun_eq_iff road_remove_city r1)
  let ?g3 = "snd (add_city name ?g2)"
  have e: "add_city name ?g2 = (Inr True, ?g3)" by (rule add_city_True) (simp add: k2 nk)
  have k3: "has_key x ?g3 = has_key x g1" for x by (simp add: has_key_add_city k2 k1)
  have r3: "road ?g3 = road g1" by (simp add: fun_eq_iff road_add_city r2 r1)
  show ?thesis
    using u e k2 r2 k3 r3 by (intro exI[of _ ?g2] exI[of _ ?g3]) (simp add: restored_exact)
qed

lemma law_rename_city:
  assumes v: "valid g" and ex: "rename_city old new g = (Inr True, g1)"
  shows "\<exists>g2 g3. rename_city new old g1 = (Inr True, g2) \<and> rename_city old new g2 = (Inr True, g3) \<and>
           restored g g2 \<and> restored g1 g3 \<and> road g2 = road g \<and> road g3 = road g1"
proof -
  have s: "symmetric g" using v by (simp add: valid_def)
  obtain nb where nb: "map_of g old = Some nb" and nk: "\<not> has_key new g"
    using ex by (auto simp: rename_city_def split: option.splits if_splits)
  have ok: "has_key old g" using nb by (simp add: has_key_def)
  have ne: "old \<noteq> new" using ok nk by auto
  have g1: "g1 = snd (rename_city old new g)" using ex by simp
  have k1: "has_key x g1 = (x = new \<or> (x \<noteq> old \<and> has_key x g))" for x
    by (simp add: g1 has_key_rename_city[OF ok nk])
  have r1: "road g1 x y = (if x = old \<or> y = old then None
      else road g (if x = new then old else x) (if y = new then old else y))" for x y
    unfolding g1 by (rule road_rename_city[OF s nb nk])
  have s1: "symmetric g1" unfolding g1 using s by (rule symmetric_rename_city)
  have nk1: "has_key new g1" "\<not> has_key old g1" using ne by (simp_all add: k1)
  obtain nb1 where nb1: "map_of g1 new = Some nb1" using nk1(1) by (auto simp: has_key_def)
  let ?g2 = "snd (rename_city new old g1)"
  have u: "rename_city new old g1 = (Inr True, ?g2)" using nk1 by (rule rename_city_True)
  have k2: "has_key x ?g2 = has_key x g" for x
    using ne ok nk by (auto simp: has_key_rename_city[OF nk1] k1)
  have r2: "road ?g2 = road g"
    using ne road_absent_city[OF s nk]
    by (auto simp: fun_eq_iff road_rename_city[OF s1 nb1 nk1(2)] r1)
  have s2: "symmetric ?g2" using s r2 by (simp add: symmetric_def)
  obtain nb2 where nb2: "map_of ?g2 old = Some nb2" using ok k2 by (auto simp: has_key_def)
  have nk2: "\<not> has_key new ?g2" "has_key old ?g2" using nk ok by (simp_all add: k2)
  let ?g3 = "snd (rename_city old new ?g2)"
  have e: "rename_city old new ?g2 = (Inr True, ?g3)" using nk2(2,1) by (rule rename_city_True)
  have k3: "has_key x ?g3 = has_key x g1" for x
    by (simp add: has_key_rename_city[OF nk2(2,1)] k1 k2)
  have r3: "road ?g3 = road g1"
    by (simp add: fun_eq_iff road_rename_city[OF s2 nb2 nk2(1)] r1 r2)
  show ?thesis
    using u e k2 r2 k3 r3 by (intro exI[of _ ?g2] exI[of _ ?g3]) (simp add: restored_exact)
qed


lemma add_costs_result:
  assumes "symmetric g" "has_key a g" "has_key b g" "a \<noteq> b"
  shows "\<exists>G. add_costs a b cs g = (Inr (), G) \<and> (\<forall>x. has_key x G = has_key x g) \<and>
           road G = (if cs = [] then road g else set_pair a b (Some (costs g a b @ cs)) (road g))"
  using assms
proof (induction cs arbitrary: g)
  case Nil
  then show ?case by simp
next
  case (Cons c cs)
  from add_road_result[OF Cons.prems, of c]
  obtain g1 where a: "add_road a b c g = (Inr True, g1)"
    and k1: "\<forall>x. has_key x g1 = has_key x g"
    and r1: "road g1 = set_pair a b (Some (costs g a b @ [c])) (road g)" by blast
  have s1: "symmetric g1" using r1 Cons.prems(1) by (rule symmetric_set_pair)
  have c1: "costs g1 a b = costs g a b @ [c]" using costs_set_pair[OF r1] by simp
  from Cons.IH[OF s1 _ _ Cons.prems(4)] k1 Cons.prems(2,3)
  obtain G where b: "add_costs a b cs g1 = (Inr (), G)"
    and k: "\<forall>x. has_key x G = has_key x g1"
    and r: "road G = (if cs = [] then road g1 else set_pair a b (Some (costs g1 a b @ cs)) (road g1))"
    by auto
  have "add_costs a b (c # cs) g = (Inr (), G)" using a b by simp
  moreover have "\<forall>x. has_key x G = has_key x g" using k k1 by simp
  moreover have "road G = set_pair a b (Some (costs g a b @ c # cs)) (road g)"
    using r by (simp add: r1 c1)
  ultimately show ?case by auto
qed


lemma add_roads_result:
  assumes "symmetric g" "has_key name g" "distinct (map fst nb)"
    "\<forall>(n, cs) \<in> set nb. n \<noteq> name \<and> has_key n g \<and> cs \<noteq> []"
  shows "\<exists>G. add_roads (captured name nb) g = (Inr (), G) \<and>
           (\<forall>x. has_key x G = has_key x g) \<and> symmetric G \<and>
           (\<forall>x y. road G x y =
              (case (if x = name then map_of nb y else if y = name then map_of nb x else None) of
                 None \<Rightarrow> road g x y
               | Some cs \<Rightarrow> Some (costs g x y @ cs)))"
  using assms
proof (induction nb arbitrary: g)
  case Nil
  then show ?case by (simp add: captured_def)
next
  case (Cons p nb)
  obtain n cs where p: "p = (n, cs)" by (cases p)
  have n: "n \<noteq> name" "has_key n g" "cs \<noteq> []" using Cons.prems(4) p by auto
  from add_costs_result[OF Cons.prems(1,2) n(2) n(1)[symmetric], of cs] n(3)
  obtain g1 where a: "add_costs name n cs g = (Inr (), g1)"
    and k1: "\<forall>x. has_key x g1 = has_key x g"
    and r1: "road g1 = set_pair name n (Some (costs g name n @ cs)) (road g)" by auto
  have s1: "symmetric g1" using r1 Cons.prems(1) by (rule symmetric_set_pair)
  have d: "distinct (map fst nb)" "map_of nb n = None"
    using Cons.prems(3) p by (auto simp: map_of_eq_None_iff)
  have "\<forall>(n, cs) \<in> set nb. n \<noteq> name \<and> has_key n g1 \<and> cs \<noteq> []"
    using Cons.prems(4) k1 by auto
  from Cons.IH[OF s1 _ d(1) this] k1 Cons.prems(2)
  obtain G where b: "add_roads (captured name nb) g1 = (Inr (), G)"
    and k: "\<forall>x. has_key x G = has_key x g1" and sG: "symmetric G"
    and r: "\<And>x y. road G x y =
              (case (if x = name then map_of nb y else if y = name then map_of nb x else None) of
                 None \<Rightarrow> road g1 x y
               | Some cs \<Rightarrow> Some (costs g1 x y @ cs))"
    by auto
  have nn: "map_of nb name = None \<or> True" by simp
  have sym_costs: "costs g x y = costs g y x" for x y
    using Cons.prems(1) by (simp add: costs_def symmetric_def)
  have "add_roads (captured name (p # nb)) g = (Inr (), G)"
    using a b by (simp add: captured_def p)
  moreover have "\<forall>x. has_key x G = has_key x g" using k k1 by simp
  moreover have "road G x y =
              (case (if x = name then map_of (p # nb) y else if y = name then map_of (p # nb) x else None) of
                 None \<Rightarrow> road g x y
               | Some cs \<Rightarrow> Some (costs g x y @ cs))" for x y
    using n(1) d(2) sym_costs[of n name]
    by (auto simp: r p r1 set_pair_def costs_def split: option.splits)
  ultimately show ?case using sG by auto
qed


lemma inner_distinct_update:
  "inner_distinct g \<Longrightarrow> distinct (map fst nb) \<Longrightarrow> inner_distinct (AList.update k nb g)"
  by (auto simp: inner_distinct_def AList.update_conv')

lemma inner_distinct_delete: "inner_distinct g \<Longrightarrow> inner_distinct (AList.delete k g)"
  by (auto simp: inner_distinct_def AList.delete_conv' split: if_splits)

lemma inner_distinct_map_entry:
  "inner_distinct g \<Longrightarrow> (\<And>nb. distinct (map fst nb) \<Longrightarrow> distinct (map fst (f nb))) \<Longrightarrow>
   inner_distinct (AList.map_entry k f g)"
  by (auto simp: inner_distinct_def AList.map_of_map_entry split: if_splits option.splits)

lemma inner_distinct_map_value:
  "inner_distinct g \<Longrightarrow> (\<And>nb. distinct (map fst nb) \<Longrightarrow> distinct (map fst (f nb))) \<Longrightarrow>
   inner_distinct (map (\<lambda>(c, nb). (c, f nb)) g)"
  by (auto simp: inner_distinct_def map_of_map_value)

lemma inner_distinct_put_road: "inner_distinct g \<Longrightarrow> inner_distinct (put_road a b cs g)"
  unfolding put_road_def by (rule inner_distinct_map_entry) (simp_all add: AList.distinct_update)

lemma inner_distinct_del_road: "inner_distinct g \<Longrightarrow> inner_distinct (del_road a b g)"
  unfolding del_road_def by (rule inner_distinct_map_entry) (simp_all add: AList.distinct_delete)

lemma inner_distinct_add_city: "inner_distinct g \<Longrightarrow> inner_distinct (snd (add_city name g))"
  by (simp add: add_city_def inner_distinct_update)

lemma inner_distinct_remove_city: "inner_distinct g \<Longrightarrow> inner_distinct (snd (remove_city name g))"
  by (simp add: remove_city_def Let_def inner_distinct_delete inner_distinct_map_value
        AList.distinct_delete)

lemma inner_distinct_add_road: "inner_distinct g \<Longrightarrow> inner_distinct (snd (add_road a b c g))"
  by (auto simp: add_road_def Let_def inner_distinct_put_road split: option.splits)

lemma inner_distinct_add_costs: "inner_distinct g \<Longrightarrow> inner_distinct (snd (add_costs a b cs g))"
proof (induction cs arbitrary: g)
  case Nil then show ?case by simp
next
  case (Cons c cs)
  show ?case
    using Cons.IH[OF inner_distinct_add_road[OF Cons.prems, of a b c]] Cons.prems
      inner_distinct_add_road[OF Cons.prems, of a b c]
    by (cases "add_road a b c g") (auto split: sum.splits)
qed

lemma inner_distinct_add_roads: "inner_distinct g \<Longrightarrow> inner_distinct (snd (add_roads rs g))"
proof (induction rs arbitrary: g)
  case Nil then show ?case by simp
next
  case (Cons r rs)
  obtain a b cs where r: "r = (a, b, cs)" by (cases r)
  show ?case
    using Cons.IH[OF inner_distinct_add_costs[OF Cons.prems, of a b cs]]
      inner_distinct_add_costs[OF Cons.prems, of a b cs]
    by (cases "add_costs a b cs g") (auto simp: r split: sum.splits)
qed

lemma neighbors_facts:
  assumes "valid g" "road g name name = None" "map_of g name = Some nb"
  shows "distinct (map fst nb)"
    and "\<forall>(n, cs) \<in> set nb. n \<noteq> name \<and> has_key n g \<and> cs \<noteq> []"
    and "road g name y = map_of nb y"
proof -
  show d: "distinct (map fst nb)" using assms(1,3) by (auto simp: valid_def inner_distinct_def)
  show r: "road g name y = map_of nb y" for y using assms(3) by (simp add: road_def)
  have s: "symmetric g" and ne: "\<And>x y. road g x y \<noteq> Some []"
    using assms(1) by (auto simp: valid_def)
  show "\<forall>(n, cs) \<in> set nb. n \<noteq> name \<and> has_key n g \<and> cs \<noteq> []"
  proof clarify
    fix n cs assume "(n, cs) \<in> set nb"
    then have m: "road g name n = Some cs" using d by (simp add: r)
    then have "road g n name = Some cs" using s by (simp add: symmetric_def)
    then have "has_key n g" by (rule road_Some_has_key)
    moreover have "n \<noteq> name" using m assms(2) by auto
    moreover have "cs \<noteq> []" using m ne by auto
    ultimately show "n \<noteq> name \<and> has_key n g \<and> cs \<noteq> []" by simp
  qed
qed

lemma execute_remove_city:
  assumes "map_of g name = Some nb"
  shows "execute (RemoveCityCommand name rs) g =
           (Inr True, RemoveCityCommand name (rs @ captured name nb), snd (remove_city name g))"
proof -
  have "has_key name g" using assms by (simp add: has_key_def)
  then show ?thesis
    using assms remove_city_True[of name g]
    by (cases "remove_city name g") (simp add: captured_def)
qed

lemma undo_remove_city:
  assumes v: "valid g" and ns: "road g name name = None" and nb: "map_of g name = Some nb"
  shows "\<exists>g2. undo (RemoveCityCommand name (captured name nb)) (snd (remove_city name g)) =
                 (Inr True, RemoveCityCommand name (captured name nb), g2) \<and>
              (\<forall>x. has_key x g2 = has_key x g) \<and> road g2 = road g \<and> inner_distinct g2"
proof -
  have s: "symmetric g" and i: "inner_distinct g" using v by (auto simp: valid_def)
  have hk: "has_key name g" using nb by (simp add: has_key_def)
  let ?g1 = "snd (remove_city name g)"
  define h where "h = snd (add_city name ?g1)"
  have k1: "has_key x ?g1 = (x \<noteq> name \<and> has_key x g)" for x
    using hk by (rule has_key_remove_city)
  have a: "add_city name ?g1 = (Inr True, h)"
    unfolding h_def by (rule add_city_True) (simp add: k1)
  have kh: "has_key x h = has_key x g" for x
    using hk by (auto simp: h_def has_key_add_city k1)
  have rh: "road h x y = (if x = name \<or> y = name then None else road g x y)" for x y
    using hk by (simp add: h_def road_add_city road_remove_city)
  have sh: "symmetric h" using s by (simp add: h_def symmetric_add_city symmetric_remove_city)
  have ih: "inner_distinct h"
    using i by (simp add: h_def inner_distinct_add_city inner_distinct_remove_city)
  note f = neighbors_facts[OF v ns nb]
  have "\<forall>(n, cs) \<in> set nb. n \<noteq> name \<and> has_key n h \<and> cs \<noteq> []"
    using f(2) by (simp add: kh)
  from add_roads_result[OF sh _ f(1) this] hk
  obtain g2 where b: "add_roads (captured name nb) h = (Inr (), g2)"
    and k2: "\<forall>x. has_key x g2 = has_key x h"
    and r2: "\<And>x y. road g2 x y =
              (case (if x = name then map_of nb y else if y = name then map_of nb x else None) of
                 None \<Rightarrow> road h x y
               | Some cs \<Rightarrow> Some (costs h x y @ cs))"
    by (auto simp: kh)
  have ch: "costs h name y = []" "costs h y name = []" for y by (simp_all add: costs_def rh)
  have sym: "road g y name = road g name y" for y using s by (simp add: symmetric_def)
  have "road g2 x y = road g x y" for x y
  proof (cases "x = name")
    case True
    then show ?thesis by (cases "map_of nb y") (simp_all add: r2 rh ch f(3))
  next
    case False
    show ?thesis
    proof (cases "y = name")
      case True
      then show ?thesis
        using False by (cases "map_of nb x") (simp_all add: r2 rh ch sym f(3))
    next
      case y: False
      then show ?thesis using False by (simp add: r2 rh)
    qed
  qed
  then have "road g2 = road g" by (simp add: fun_eq_iff)
  moreover have "inner_distinct g2" using inner_distinct_add_roads[OF ih, of "captured name nb"] b by simp
  moreover have "undo (RemoveCityCommand name (captured name nb)) ?g1 =
                 (Inr True, RemoveCityCommand name (captured name nb), g2)"
    using a b by simp
  ultimately show ?thesis using k2 kh by auto
qed

lemma valid_same_roads: "valid g \<Longrightarrow> road g' = road g \<Longrightarrow> inner_distinct g' \<Longrightarrow> valid g'"
  by (simp add: valid_def symmetric_def)

lemma law_remove_city:
  assumes v: "valid g" and ns: "road g name name = None"
    and ex: "execute (RemoveCityCommand name []) g = (Inr True, c1, g1)"
  shows "\<exists>c2 g2 c3 g3. undo c1 g1 = (Inr True, c2, g2) \<and> execute c2 g2 = (Inr True, c3, g3) \<and>
           restored g g2 \<and> restored g1 g3 \<and> road g2 = road g \<and> road g3 = road g1"
proof -
  obtain nb where nb: "map_of g name = Some nb"
    using ex by (auto split: option.splits)
  have hk: "has_key name g" using nb by (simp add: has_key_def)
  have c1: "c1 = RemoveCityCommand name (captured name nb)" and g1: "g1 = snd (remove_city name g)"
    using ex unfolding execute_remove_city[OF nb] by simp_all
  from undo_remove_city[OF v ns nb]
  obtain g2 where u: "undo c1 g1 = (Inr True, c1, g2)"
    and k2: "\<forall>x. has_key x g2 = has_key x g" and r2: "road g2 = road g" and i2: "inner_distinct g2"
    by (auto simp: c1 g1)
  obtain nb2 where nb2: "map_of g2 name = Some nb2" using hk k2 by (auto simp: has_key_def)
  let ?g3 = "snd (remove_city name g2)"
  have e: "execute c1 g2 = (Inr True, RemoveCityCommand name (captured name nb @ captured name nb2), ?g3)"
    unfolding c1 by (rule execute_remove_city[OF nb2])
  have k3: "\<forall>x. has_key x ?g3 = has_key x g1"
    using hk k2 by (simp add: g1 has_key_remove_city)
  have r3: "road ?g3 = road g1"
    using hk k2 by (simp add: fun_eq_iff g1 road_remove_city r2)
  show ?thesis
    using u e k2 r2 k3 r3 by (simp add: restored_exact)
qed


text \<open>
  Claim C2, as amended. In a valid map, for an applicable command whose \<^verbatim>\<open>execute()\<close>
  returns \<^verbatim>\<open>True\<close>: \<^verbatim>\<open>undo()\<close> immediately afterwards returns \<^verbatim>\<open>True\<close> and restores the
  cities and, in every direction, the costs as a multiset; executing again immediately after
  that undo returns \<^verbatim>\<open>True\<close> and restores the state after the first execute in the same
  sense. For the city commands, and for a road command that is \<open>order_safe\<close>, every cost
  list is restored exactly, order included.
\<close>

theorem undo_redo_inverse:
  assumes "valid g" "applicable c g" "execute c g = (Inr True, c1, g1)"
  shows "\<exists>c2 g2 c3 g3.
           undo c1 g1 = (Inr True, c2, g2) \<and> execute c2 g2 = (Inr True, c3, g3) \<and>
           restored g g2 \<and> restored g1 g3 \<and>
           (order_safe c g \<longrightarrow> road g2 = road g \<and> road g3 = road g1)"
proof (cases c)
  case (AddCityCommand name)
  then have "c1 = c" "add_city name g = (Inr True, g1)"
    using assms(3) by (auto split: prod.splits)
  then show ?thesis
    using law_add_city[OF assms(1), of name g1] AddCityCommand by auto
next
  case (RemoveCityCommand name rs)
  then have "rs = []" "road g name name = None" using assms(2) by auto
  then show ?thesis
    using law_remove_city[OF assms(1), of name c1 g1] assms(3) RemoveCityCommand by auto
next
  case (RenameCityCommand old new)
  then have "c1 = c" "rename_city old new g = (Inr True, g1)"
    using assms(3) by (auto split: prod.splits)
  then show ?thesis
    using law_rename_city[OF assms(1), of old new g1] RenameCityCommand by auto
next
  case (AddRoadCommand a b k)
  then have "c1 = c" "add_road a b k g = (Inr True, g1)" "a \<noteq> b"
    using assms(2,3) by (auto split: prod.splits)
  then show ?thesis
    using law_add_road[OF assms(1), of a b k g1] AddRoadCommand by auto
next
  case (RemoveRoadCommand a b k)
  then have "c1 = c" "remove_road a b (Some k) g = (Inr True, g1)" "a \<noteq> b"
      "k \<in> set (costs g a b)"
    using assms(2,3) by (auto split: prod.splits)
  then show ?thesis
    using law_remove_road[OF assms(1), of a b k g1] RemoveRoadCommand by auto
next
  case (UpdateRoadCommand a b old new)
  then have "c1 = c" "update_road_cost a b old new g = (Inr True, g1)" "a \<noteq> b"
    using assms(2,3) by (auto split: prod.splits)
  then show ?thesis
    using law_update_road[OF assms(1), of a b old new g1] UpdateRoadCommand by auto
qed

text \<open>
  Scenario 3 of the specification: X has roads to Y (cost 5) and Z (cost 3); removing X and
  undoing puts X back with both roads, the costs as they were.
\<close>

lemma valid_scenario:
  "valid [(''X'', [(''Y'', [5]), (''Z'', [3])]), (''Y'', [(''X'', [5])]), (''Z'', [(''X'', [3])])]"
  by (auto simp: valid_def symmetric_def inner_distinct_def road_def split: if_splits)

theorem undo_redo_inverse_witness:
  "valid [(''X'', [(''Y'', [5]), (''Z'', [3])]), (''Y'', [(''X'', [5])]), (''Z'', [(''X'', [3])])] \<and>
   applicable (RemoveCityCommand ''X'' [])
     [(''X'', [(''Y'', [5]), (''Z'', [3])]), (''Y'', [(''X'', [5])]), (''Z'', [(''X'', [3])])] \<and>
   execute (RemoveCityCommand ''X'' [])
     [(''X'', [(''Y'', [5]), (''Z'', [3])]), (''Y'', [(''X'', [5])]), (''Z'', [(''X'', [3])])] =
     (Inr True, RemoveCityCommand ''X'' [(''X'', ''Y'', [5]), (''X'', ''Z'', [3])],
      [(''Y'', []), (''Z'', [])]) \<and>
   undo (RemoveCityCommand ''X'' [(''X'', ''Y'', [5]), (''X'', ''Z'', [3])]) [(''Y'', []), (''Z'', [])] =
     (Inr True, RemoveCityCommand ''X'' [(''X'', ''Y'', [5]), (''X'', ''Z'', [3])],
      [(''Y'', [(''X'', [5])]), (''Z'', [(''X'', [3])]), (''X'', [(''Y'', [5]), (''Z'', [3])])]) \<and>
   restored [(''X'', [(''Y'', [5]), (''Z'', [3])]), (''Y'', [(''X'', [5])]), (''Z'', [(''X'', [3])])]
     [(''Y'', [(''X'', [5])]), (''Z'', [(''X'', [3])]), (''X'', [(''Y'', [5]), (''Z'', [3])])] \<and>
   road [(''Y'', [(''X'', [5])]), (''Z'', [(''X'', [3])]), (''X'', [(''Y'', [5]), (''Z'', [3])])] =
   road [(''X'', [(''Y'', [5]), (''Z'', [3])]), (''Y'', [(''X'', [5])]), (''Z'', [(''X'', [3])])]"
proof -
  let ?g = "[(''X'', [(''Y'', [5]), (''Z'', [3])]), (''Y'', [(''X'', [5])]), (''Z'', [(''X'', [3::int])])]"
  let ?c1 = "RemoveCityCommand ''X'' [(''X'', ''Y'', [5]), (''X'', ''Z'', [3])]"
  let ?g1 = "[(''Y'', []), (''Z'', [])] :: cities"
  let ?g2 = "[(''Y'', [(''X'', [5])]), (''Z'', [(''X'', [3])]), (''X'', [(''Y'', [5]), (''Z'', [3::int])])]"
  have v: "valid ?g" by (rule valid_scenario)
  have a: "applicable (RemoveCityCommand ''X'' []) ?g" by (simp add: road_def)
  have e: "execute (RemoveCityCommand ''X'' []) ?g = (Inr True, ?c1, ?g1)"
    by (simp add: remove_city_def has_key_def)
  have u: "undo ?c1 ?g1 = (Inr True, ?c1, ?g2)"
    by (simp add: add_city_def add_road_def has_key_def road_def put_road_def)
  have o: "order_safe (RemoveCityCommand ''X'' []) ?g" by simp
  from undo_redo_inverse[OF v a e] u o
  have "restored ?g ?g2 \<and> road ?g2 = road ?g" by auto
  then show ?thesis using v a e u by simp
qed

text \<open>
  The claim as stated fails. Undoing the addition of a second road of cost 5 removes the
  first 5 of the list, so \<open>[5, 3]\<close> comes back as \<open>[3, 5]\<close>. Removing a cost that is not there
  succeeds without a change, and its undo adds a road that never was. A city with a road to
  itself comes back with that road's costs doubled.
\<close>

theorem undo_redo_inverse_counterexample:
  "execute (AddRoadCommand ''X'' ''Y'' 5) [(''X'', [(''Y'', [5, 3])]), (''Y'', [(''X'', [5, 3])])] =
     (Inr True, AddRoadCommand ''X'' ''Y'' 5,
      [(''X'', [(''Y'', [5, 3, 5])]), (''Y'', [(''X'', [5, 3, 5])])]) \<and>
   undo (AddRoadCommand ''X'' ''Y'' 5) [(''X'', [(''Y'', [5, 3, 5])]), (''Y'', [(''X'', [5, 3, 5])])] =
     (Inr True, AddRoadCommand ''X'' ''Y'' 5,
      [(''X'', [(''Y'', [3, 5])]), (''Y'', [(''X'', [3, 5])])]) \<and>
   road [(''X'', [(''Y'', [3, 5])]), (''Y'', [(''X'', [3, 5])])] ''X'' ''Y'' \<noteq>
   road [(''X'', [(''Y'', [5, 3])]), (''Y'', [(''X'', [5, 3])])] ''X'' ''Y'' \<and>
   execute (RemoveRoadCommand ''X'' ''Y'' 7) [(''X'', [(''Y'', [5, 3])]), (''Y'', [(''X'', [5, 3])])] =
     (Inr True, RemoveRoadCommand ''X'' ''Y'' 7,
      [(''X'', [(''Y'', [5, 3])]), (''Y'', [(''X'', [5, 3])])]) \<and>
   undo (RemoveRoadCommand ''X'' ''Y'' 7) [(''X'', [(''Y'', [5, 3])]), (''Y'', [(''X'', [5, 3])])] =
     (Inr True, RemoveRoadCommand ''X'' ''Y'' 7,
      [(''X'', [(''Y'', [5, 3, 7])]), (''Y'', [(''X'', [5, 3, 7])])]) \<and>
   run [AddCity ''X'', AddRoad ''X'' ''X'' 5] [] = [(''X'', [(''X'', [5, 5])])] \<and>
   execute (RemoveCityCommand ''X'' []) [(''X'', [(''X'', [5, 5])])] =
     (Inr True, RemoveCityCommand ''X'' [(''X'', ''X'', [5, 5])], []) \<and>
   undo (RemoveCityCommand ''X'' [(''X'', ''X'', [5, 5])]) [] =
     (Inr True, RemoveCityCommand ''X'' [(''X'', ''X'', [5, 5])], [(''X'', [(''X'', [5, 5, 5, 5])])])"
  by (simp add: run_def add_city_def remove_city_def add_road_def remove_road_def del_both_def
        has_key_def road_def put_road_def del_road_def)

section \<open>Properties of the command manager\<close>

lemma add_city_False: "add_city name g = (Inr False, g') \<Longrightarrow> g' = g"
  by (auto simp: add_city_def split: if_splits)

lemma remove_city_False: "remove_city name g = (Inr False, g') \<Longrightarrow> g' = g"
  by (auto simp: remove_city_def Let_def split: if_splits)

lemma rename_city_False: "rename_city old new g = (Inr False, g') \<Longrightarrow> g' = g"
  by (auto simp: rename_city_def Let_def split: if_splits option.splits)

lemma add_road_False: "add_road a b c g = (Inr False, g') \<Longrightarrow> g' = g"
  by (auto simp: add_road_def Let_def split: if_splits option.splits)

lemma del_both_not_False: "del_both a b g \<noteq> (Inr False, g')"
  by (auto simp: del_both_def Let_def split: option.splits)

lemma remove_road_False: "remove_road a b c g = (Inr False, g') \<Longrightarrow> g' = g"
  by (auto simp: remove_road_def Let_def del_both_not_False split: if_splits option.splits)

lemma update_road_cost_False: "update_road_cost a b old new g = (Inr False, g') \<Longrightarrow> g' = g"
  by (auto simp: update_road_cost_def Let_def split: if_splits option.splits)

lemma remove_city_present: "map_of g name = Some nb \<Longrightarrow> remove_city name g \<noteq> (Inr False, g')"
  by (simp add: remove_city_def Let_def has_key_def)

lemma execute_False: "execute c g = (Inr False, c', g') \<Longrightarrow> g' = g \<and> c' = c"
  by (cases c)
     (auto split: prod.splits option.splits simp: remove_city_present
           dest: add_city_False remove_city_False rename_city_False add_road_False
                 remove_road_False update_road_cost_False)




lemma store_fetch [simp]: "store c (fetch h c) h = h"
  by (cases c) simp_all

lemma fetch_store_execute:
  "execute (fetch h c) g = (r, c', g') \<Longrightarrow> fetch (store c c' h) c = c'"
  by (cases c) (auto split: prod.splits option.splits)

lemma save_state_fields [simp]:
  "city_map (save_state m) = city_map m"
  "undo_stack (save_state m) = undo_stack m"
  "redo_stack (save_state m) = redo_stack m"
  "heap (save_state m) = heap m"
  "next_ref (save_state m) = next_ref m"
  by (simp_all add: save_state_def Let_def)

lemma snapshot_save_state [simp]: "snapshot (save_state m) = snapshot m"
  by (simp add: snapshot_def)

lemma history_save_state:
  "history (save_state m) =
     (if current_history_index m < int (length (history m)) - 1
      then py_slice_to (history m) (current_history_index m + 1) else history m) @ [snapshot m]"
  by (simp add: save_state_def Let_def)

lemma index_save_state:
  "current_history_index (save_state m) = int (length (history (save_state m))) - 1"
  by (simp add: save_state_def Let_def)

lemma save_state_in_range:
  assumes "- 1 \<le> current_history_index m" "current_history_index m < int (length (history m))"
  shows "history (save_state m) =
           take (nat (current_history_index m + 1)) (history m) @ [snapshot m]"
    and "current_history_index (save_state m) = current_history_index m + 1"
  using assms by (auto simp: save_state_def Let_def py_slice_to_def)

text \<open>
  Claim C6, as amended. When \<^verbatim>\<open>cmd.execute()\<close> returns \<^verbatim>\<open>True\<close>, \<^verbatim>\<open>execute_command\<close> returns
  \<^verbatim>\<open>True\<close>; the command is the new top of the undo stack, with the list that \<^verbatim>\<open>execute\<close> has
  left in the heap and no other list changed; the redo stack is empty whatever it held; the
  snapshot of the new state is appended to the history (to \<^verbatim>\<open>history[:cursor + 1]\<close> when the
  cursor is before the last entry, to the whole history otherwise); and the cursor is the
  index of that snapshot. When the cursor was at an entry of the history, or at \<open>- 1\<close>, the
  history is its first \<open>cursor + 1\<close> entries followed by the snapshot, and the cursor is the
  old cursor plus one. When \<^verbatim>\<open>cmd.execute()\<close> returns \<^verbatim>\<open>False\<close>, \<^verbatim>\<open>execute_command\<close> returns
  \<^verbatim>\<open>False\<close> and the state is unchanged.
\<close>

theorem execute_command_contract:
  "(execute (fetch (heap m) cmd) (city_map m) = (Inr True, cmd', g') \<longrightarrow>
      (\<exists>m'. execute_command cmd m = (Inr True, m') \<and>
         city_map m' = g' \<and> undo_stack m' = undo_stack m @ [cmd] \<and>
         fetch (heap m') cmd = cmd' \<and> heap m' = store cmd cmd' (heap m) \<and>
         next_ref m' = next_ref m \<and> redo_stack m' = [] \<and>
         history m' =
           (if current_history_index m < int (length (history m)) - 1
            then py_slice_to (history m) (current_history_index m + 1)
            else history m) @ [snapshot m'] \<and>
         current_history_index m' = int (length (history m')) - 1 \<and>
         (- 1 \<le> current_history_index m \<and> current_history_index m < int (length (history m)) \<longrightarrow>
            history m' = take (nat (current_history_index m + 1)) (history m) @ [snapshot m'] \<and>
            current_history_index m' = current_history_index m + 1))) \<and>
   (execute (fetch (heap m) cmd) (city_map m) = (Inr False, cmd', g') \<longrightarrow>
      execute_command cmd m = (Inr False, m))"
proof (intro conjI impI)
  assume e: "execute (fetch (heap m) cmd) (city_map m) = (Inr True, cmd', g')"
  let ?m0 = "m\<lparr>city_map := g', heap := store cmd cmd' (heap m),
                undo_stack := undo_stack m @ [cmd], redo_stack := []\<rparr>"
  define m' where "m' = save_state ?m0"
  have r: "execute_command cmd m = (Inr True, m')"
    using e by (simp add: execute_command_def m'_def)
  have f: "city_map m' = g'" "undo_stack m' = undo_stack m @ [cmd]" "redo_stack m' = []"
      "heap m' = store cmd cmd' (heap m)" "next_ref m' = next_ref m"
    by (simp_all add: m'_def)
  have c: "fetch (heap m') cmd = cmd'"
    using fetch_store_execute[OF e] by (simp add: f)
  have h: "history m' =
           (if current_history_index m < int (length (history m)) - 1
            then py_slice_to (history m) (current_history_index m + 1)
            else history m) @ [snapshot m']"
    by (simp add: m'_def history_save_state)
  have i: "current_history_index m' = int (length (history m')) - 1"
    unfolding m'_def by (rule index_save_state)
  have a: "- 1 \<le> current_history_index m \<and> current_history_index m < int (length (history m)) \<longrightarrow>
           history m' = take (nat (current_history_index m + 1)) (history m) @ [snapshot m'] \<and>
           current_history_index m' = current_history_index m + 1"
    using save_state_in_range[of ?m0] by (simp add: m'_def)
  show "\<exists>m'. execute_command cmd m = (Inr True, m') \<and>
         city_map m' = g' \<and> undo_stack m' = undo_stack m @ [cmd] \<and>
         fetch (heap m') cmd = cmd' \<and> heap m' = store cmd cmd' (heap m) \<and>
         next_ref m' = next_ref m \<and> redo_stack m' = [] \<and>
         history m' =
           (if current_history_index m < int (length (history m)) - 1
            then py_slice_to (history m) (current_history_index m + 1)
            else history m) @ [snapshot m'] \<and>
         current_history_index m' = int (length (history m')) - 1 \<and>
         (- 1 \<le> current_history_index m \<and> current_history_index m < int (length (history m)) \<longrightarrow>
            history m' = take (nat (current_history_index m + 1)) (history m) @ [snapshot m'] \<and>
            current_history_index m' = current_history_index m + 1)"
    using r f c h i a by blast
next
  assume e: "execute (fetch (heap m) cmd) (city_map m) = (Inr False, cmd', g')"
  then have "g' = city_map m \<and> cmd' = fetch (heap m) cmd" using execute_False by blast
  then show "execute_command cmd m = (Inr False, m)"
    using e by (simp add: execute_command_def)
qed

theorem execute_command_contract_witness:
  "redo_stack (snd (execute_command (AddCityCommand ''X'')
      \<lparr>city_map = [], undo_stack = [], redo_stack = [AddCityCommand ''Y''],
       history = [ONull], current_history_index = 0, heap = (\<lambda>r. []), next_ref = 0\<rparr>)) = [] \<and>
   undo_stack (snd (execute_command (AddCityCommand ''X'')
      \<lparr>city_map = [], undo_stack = [], redo_stack = [AddCityCommand ''Y''],
       history = [ONull], current_history_index = 0, heap = (\<lambda>r. []), next_ref = 0\<rparr>)) =
     [AddCityCommand ''X''] \<and>
   history (snd (execute_command (AddCityCommand ''X'')
      \<lparr>city_map = [], undo_stack = [], redo_stack = [AddCityCommand ''Y''],
       history = [ONull], current_history_index = 0, heap = (\<lambda>r. []), next_ref = 0\<rparr>)) =
     [ONull,
      ODict [(''map_state'', ODict [(''cities'', ODict [(''X'', ODict [])]),
                                    (''_version'', OStr ''1.2'')]),
             (''undo_stack'', OList [ODict [(''type'', OStr ''AddCityCommand''),
                                            (''name'', OStr ''X'')]]),
             (''redo_stack'', OList [])]] \<and>
   current_history_index (snd (execute_command (AddCityCommand ''X'')
      \<lparr>city_map = [], undo_stack = [], redo_stack = [AddCityCommand ''Y''],
       history = [ONull], current_history_index = 0, heap = (\<lambda>r. []), next_ref = 0\<rparr>)) = 1 \<and>
   execute_command (AddCityCommand ''X'')
      \<lparr>city_map = [(''X'', [])], undo_stack = [], redo_stack = [AddCityCommand ''Y''],
       history = [ONull], current_history_index = 0, heap = (\<lambda>r. []), next_ref = 0\<rparr> =
     (Inr False, \<lparr>city_map = [(''X'', [])], undo_stack = [], redo_stack = [AddCityCommand ''Y''],
       history = [ONull], current_history_index = 0, heap = (\<lambda>r. []), next_ref = 0\<rparr>)"
  using execute_command_contract [of
      "\<lparr>city_map = [], undo_stack = [], redo_stack = [AddCityCommand ''Y''],
       history = [ONull], current_history_index = 0, heap = (\<lambda>r. []), next_ref = 0\<rparr>"
      "AddCityCommand ''X''" "AddCityCommand ''X''" "[(''X'', [])]"]
    execute_command_contract [of
      "\<lparr>city_map = [(''X'', [])], undo_stack = [], redo_stack = [AddCityCommand ''Y''],
       history = [ONull], current_history_index = 0, heap = (\<lambda>r. []), next_ref = 0\<rparr>"
      "AddCityCommand ''X''" "AddCityCommand ''X''" "[(''X'', [])]"]
  by (auto simp: add_city_def has_key_def snapshot_def get_safe_state_def serialize_commands_def)

text \<open>
  The claim as stated fails where it says that the cursor advances. A load that fails
  leaves the history and the cursor of the document behind: here a history of one entry
  and the cursor 3. The next command that is executed moves the cursor back to 1, the index
  of the snapshot it appends.
\<close>

theorem execute_command_cursor_counterexample:
  "load_from_file (map_of [])
     (Some (JDict [(''history'', JList [JInt 1]), (''current_index'', JInt 3)])) (new_manager []) =
     (False, Some ((new_manager [])\<lparr>history := [OInt 1], current_history_index := 3\<rparr>)) \<and>
   fst (execute_command (AddCityCommand ''X'')
          ((new_manager [])\<lparr>history := [OInt 1], current_history_index := 3\<rparr>)) = Inr True \<and>
   current_history_index (snd (execute_command (AddCityCommand ''X'')
          ((new_manager [])\<lparr>history := [OInt 1], current_history_index := 3\<rparr>))) = 1"
  by (simp add: load_from_file_def dict_get_def set_timeline_def py_get_def new_manager_def
        save_state_def execute_command_def add_city_def has_key_def)



subsection \<open>Redo of a city removal\<close>

lemma add_roads_append:
  "add_roads xs g = (Inr (), g') \<Longrightarrow> add_roads (xs @ ys) g = add_roads ys g'"
proof (induction xs arbitrary: g)
  case Nil then show ?case by simp
next
  case (Cons r xs)
  obtain a b cs where r: "r = (a, b, cs)" by (cases r)
  obtain res g1 where c: "add_costs a b cs g = (res, g1)" by (cases "add_costs a b cs g")
  show ?case
  proof (cases res)
    case (Inl e)
    then show ?thesis using Cons.prems c by (simp add: r)
  next
    case (Inr u)
    then have "add_roads xs g1 = (Inr (), g')" using Cons.prems c by (simp add: r)
    from Cons.IH[OF this] show ?thesis using c Inr by (simp add: r)
  qed
qed

lemma readd_city:
  assumes "symmetric g" "inner_distinct g" "has_key name g"
  shows "\<exists>h. add_city name (snd (remove_city name g)) = (Inr True, h) \<and>
           (\<forall>x. has_key x h = has_key x g) \<and>
           (\<forall>x y. road h x y = (if x = name \<or> y = name then None else road g x y)) \<and>
           symmetric h \<and> inner_distinct h"
proof -
  let ?g1 = "snd (remove_city name g)"
  define h where "h = snd (add_city name ?g1)"
  have k1: "has_key x ?g1 = (x \<noteq> name \<and> has_key x g)" for x
    using assms(3) by (rule has_key_remove_city)
  have a: "add_city name ?g1 = (Inr True, h)"
    unfolding h_def by (rule add_city_True) (simp add: k1)
  have kh: "has_key x h = has_key x g" for x
    using assms(3) by (auto simp: h_def has_key_add_city k1)
  have rh: "road h x y = (if x = name \<or> y = name then None else road g x y)" for x y
    using assms(3) by (simp add: h_def road_add_city road_remove_city)
  have sh: "symmetric h" using assms(1) by (simp add: h_def symmetric_add_city symmetric_remove_city)
  have ih: "inner_distinct h"
    using assms(2) by (simp add: h_def inner_distinct_add_city inner_distinct_remove_city)
  show ?thesis using a kh rh sh ih by blast
qed

lemma undo_twice_captured:
  assumes v: "valid g" and ns: "road g name name = None" and nb: "map_of g name = Some nb"
    and nb1: "distinct (map fst nb1)" "map_of nb1 = map_of nb"
    and nb2: "distinct (map fst nb2)" "map_of nb2 = map_of nb"
  shows "\<exists>g4. undo (RemoveCityCommand name (captured name nb1 @ captured name nb2))
                  (snd (remove_city name g)) =
                 (Inr True, RemoveCityCommand name (captured name nb1 @ captured name nb2), g4) \<and>
              (\<forall>(n, cs) \<in> set nb. road g4 name n = Some (cs @ cs) \<and> road g4 n name = Some (cs @ cs))"
proof -
  have s: "symmetric g" and i: "inner_distinct g" using v by (auto simp: valid_def)
  have hk: "has_key name g" using nb by (simp add: has_key_def)
  from readd_city[OF s i hk]
  obtain h where a: "add_city name (snd (remove_city name g)) = (Inr True, h)"
    and kh: "\<And>x. has_key x h = has_key x g"
    and rh: "\<And>x y. road h x y = (if x = name \<or> y = name then None else road g x y)"
    and sh: "symmetric h" by blast
  note f = neighbors_facts[OF v ns nb]
  have set1: "set nb1 = set nb"
    using nb1 f(1) by (simp add: map_of_inject_set)
  have set2: "set nb2 = set nb"
    using nb2 f(1) by (simp add: map_of_inject_set)
  have c1: "\<forall>(n, cs) \<in> set nb1. n \<noteq> name \<and> has_key n h \<and> cs \<noteq> []"
    using f(2) by (simp add: set1 kh)
  from add_roads_result[OF sh _ nb1(1) c1] hk
  obtain G1 where b1: "add_roads (captured name nb1) h = (Inr (), G1)"
    and k1: "\<And>x. has_key x G1 = has_key x h" and s1: "symmetric G1"
    and r1: "\<And>x y. road G1 x y =
              (case (if x = name then map_of nb1 y else if y = name then map_of nb1 x else None) of
                 None \<Rightarrow> road h x y
               | Some cs \<Rightarrow> Some (costs h x y @ cs))"
    by (auto simp: kh)
  have c2: "\<forall>(n, cs) \<in> set nb2. n \<noteq> name \<and> has_key n G1 \<and> cs \<noteq> []"
    using f(2) by (simp add: set2 k1 kh)
  from add_roads_result[OF s1 _ nb2(1) c2] hk
  obtain G2 where b2: "add_roads (captured name nb2) G1 = (Inr (), G2)"
    and r2: "\<And>x y. road G2 x y =
              (case (if x = name then map_of nb2 y else if y = name then map_of nb2 x else None) of
                 None \<Rightarrow> road G1 x y
               | Some cs \<Rightarrow> Some (costs G1 x y @ cs))"
    by (auto simp: kh k1)
  have b: "add_roads (captured name nb1 @ captured name nb2) h = (Inr (), G2)"
    using add_roads_append[OF b1] b2 by simp
  have u: "undo (RemoveCityCommand name (captured name nb1 @ captured name nb2))
                  (snd (remove_city name g)) =
                 (Inr True, RemoveCityCommand name (captured name nb1 @ captured name nb2), G2)"
    using a b by simp
  have ch: "costs h name y = []" "costs h y name = []" for y by (simp_all add: costs_def rh)
  have "road G2 name n = Some (cs @ cs) \<and> road G2 n name = Some (cs @ cs)"
    if m: "(n, cs) \<in> set nb" for n cs
  proof -
    have l: "map_of nb n = Some cs" using m f(1) by simp
    have nn: "n \<noteq> name" using f(2) m by auto
    have g1a: "road G1 name n = Some cs" by (simp add: r1 nb1(2) l ch)
    have g1b: "road G1 n name = Some cs" using nn by (simp add: r1 nb1(2) l ch)
    have "costs G1 name n = cs" "costs G1 n name = cs" using g1a g1b by (simp_all add: costs_def)
    then show ?thesis using nn by (simp add: r2 nb2(2) l)
  qed
  then show ?thesis using u by blast
qed

lemma execute_command_True:
  "execute (fetch (heap m) c) (city_map m) = (Inr True, c', g') \<Longrightarrow>
   \<exists>m'. execute_command c m = (Inr True, m') \<and> city_map m' = g' \<and>
        undo_stack m' = undo_stack m @ [c] \<and> redo_stack m' = [] \<and>
        heap m' = store c c' (heap m)"
  by (simp add: execute_command_def)

lemma manager_undo_True:
  "undo_stack m = us @ [c] \<Longrightarrow> undo (fetch (heap m) c) (city_map m) = (Inr True, c', g') \<Longrightarrow>
   \<exists>m'. manager_undo m = (Inr True, m') \<and> city_map m' = g' \<and>
        undo_stack m' = us \<and> redo_stack m' = redo_stack m @ [c] \<and>
        heap m' = store c c' (heap m)"
  by (simp add: manager_undo_def Let_def)

lemma manager_redo_True:
  "redo_stack m = rs @ [c] \<Longrightarrow> execute (fetch (heap m) c) (city_map m) = (Inr True, c', g') \<Longrightarrow>
   \<exists>m'. manager_redo m = (Inr True, m') \<and> city_map m' = g' \<and>
        undo_stack m' = undo_stack m @ [c] \<and> redo_stack m' = rs \<and>
        heap m' = store c c' (heap m)"
  by (simp add: manager_redo_def Let_def)

text \<open>
  Claim C10. \<^verbatim>\<open>RemoveCityCommand.execute\<close> appends to \<^verbatim>\<open>roads\<close> without emptying it. For a
  city with at least one road (in a valid map, no road to itself) and a command that has
  captured nothing yet: after \<^verbatim>\<open>execute_command\<close>, \<^verbatim>\<open>undo\<close>, \<^verbatim>\<open>redo\<close>, all returning \<^verbatim>\<open>True\<close>,
  the same command is on the undo stack and holds the captured roads twice over, and the
  next \<^verbatim>\<open>undo\<close> returns \<^verbatim>\<open>True\<close> and leaves every road of the city with its cost list
  doubled, in both directions: the map is not the one before the removal.
\<close>

theorem remove_city_redo_accumulates:
  assumes v: "valid (city_map m)" and ns: "road (city_map m) name name = None"
    and nb: "map_of (city_map m) name = Some nb" and ne: "nb \<noteq> []"
    and fresh: "heap m ref = []"
    and s1: "execute_command (RemoveCityCommand name ref) m = (r1, m1)"
    and s2: "manager_undo m1 = (r2, m2)"
    and s3: "manager_redo m2 = (r3, m3)"
    and s4: "manager_undo m3 = (r4, m4)"
  shows "r1 = Inr True \<and> r2 = Inr True \<and> r3 = Inr True \<and> r4 = Inr True \<and>
         last (undo_stack m1) = RemoveCityCommand name ref \<and>
         fetch (heap m1) (last (undo_stack m1)) = RemoveCityCommand name (captured name nb) \<and>
         last (undo_stack m3) = RemoveCityCommand name ref \<and>
         (\<exists>nb2. fetch (heap m3) (last (undo_stack m3)) =
                  RemoveCityCommand name (captured name nb @ captured name nb2) \<and>
                length nb2 = length nb) \<and>
         (\<forall>(n, cs) \<in> set nb.
            road (city_map m) name n = Some cs \<and>
            road (city_map m4) name n = Some (cs @ cs) \<and>
            road (city_map m4) n name = Some (cs @ cs)) \<and>
         road (city_map m4) \<noteq> road (city_map m)"
proof -
  let ?g = "city_map m"
  let ?R = "captured name nb"
  let ?c = "RemoveCityCommand name ref"
  let ?g1 = "snd (remove_city name ?g)"
  have hk: "has_key name ?g" using nb by (simp add: has_key_def)
  note f = neighbors_facts[OF v ns nb]
  have e1: "execute (fetch (heap m) ?c) ?g = (Inr True, RemoveCityCommand name ?R, ?g1)"
    using execute_remove_city[OF nb, of "[]"] by (simp add: fresh)
  from execute_command_True[OF e1] s1
  have r1: "r1 = Inr True" and g1: "city_map m1 = ?g1"
    and u1: "undo_stack m1 = undo_stack m @ [?c]"
    and d1: "redo_stack m1 = []"
    and h1: "heap m1 = (heap m)(ref := ?R)" by auto
  from undo_remove_city[OF v ns nb]
  obtain g2 where ug: "undo (RemoveCityCommand name ?R) ?g1 = (Inr True, RemoveCityCommand name ?R, g2)"
    and k2: "\<forall>x. has_key x g2 = has_key x ?g" and rg2: "road g2 = road ?g"
    and i2: "inner_distinct g2" by blast
  have e2: "undo (fetch (heap m1) ?c) (city_map m1) = (Inr True, RemoveCityCommand name ?R, g2)"
    using ug by (simp add: h1 g1)
  from manager_undo_True[OF u1 e2] s2 d1
  have r2: "r2 = Inr True" and g2: "city_map m2 = g2"
    and u2: "undo_stack m2 = undo_stack m"
    and d2: "redo_stack m2 = [] @ [?c]"
    and h2: "heap m2 = (heap m)(ref := ?R)" by (auto simp: h1)
  have v2: "valid g2" using v rg2 i2 by (rule valid_same_roads)
  obtain nb2 where nb2: "map_of g2 name = Some nb2" using hk k2 by (auto simp: has_key_def)
  have ns2: "road g2 name name = None" using ns rg2 by simp
  note f2 = neighbors_facts[OF v2 ns2 nb2]
  have m2: "map_of nb2 = map_of nb"
  proof
    fix y
    have "map_of nb2 y = road g2 name y" using f2(3) by simp
    also have "\<dots> = map_of nb y" using rg2 f(3) by simp
    finally show "map_of nb2 y = map_of nb y" .
  qed
  have set2: "set nb2 = set nb" using m2 f2(1) f(1) by (simp add: map_of_inject_set)
  have len2: "length nb2 = length nb"
  proof -
    have "distinct nb2" "distinct nb" using f2(1) f(1) by (auto simp: distinct_map)
    then show ?thesis using set2 by (metis distinct_card)
  qed
  let ?g3 = "snd (remove_city name g2)"
  let ?c3 = "RemoveCityCommand name (?R @ captured name nb2)"
  have e3: "execute (fetch (heap m2) ?c) (city_map m2) = (Inr True, ?c3, ?g3)"
    using execute_remove_city[OF nb2, of ?R] by (simp add: h2 g2)
  from manager_redo_True[OF d2 e3] s3 u2
  have r3: "r3 = Inr True" and g3: "city_map m3 = ?g3"
    and u3: "undo_stack m3 = undo_stack m @ [?c]"
    and h3: "heap m3 = (heap m)(ref := ?R @ captured name nb2)" by (auto simp: h2)
  from undo_twice_captured[OF v2 ns2 nb2 f(1) m2[symmetric] f2(1) refl]
  obtain g4 where ug4: "undo ?c3 ?g3 = (Inr True, ?c3, g4)"
    and d4: "\<forall>(n, cs) \<in> set nb2. road g4 name n = Some (cs @ cs) \<and> road g4 n name = Some (cs @ cs)"
    by blast
  have e4: "undo (fetch (heap m3) ?c) (city_map m3) = (Inr True, ?c3, g4)"
    using ug4 by (simp add: h3 g3)
  from manager_undo_True[OF u3 e4] s4
  have r4: "r4 = Inr True" and g4: "city_map m4 = g4" by auto
  have all: "\<forall>(n, cs) \<in> set nb.
            road ?g name n = Some cs \<and>
            road (city_map m4) name n = Some (cs @ cs) \<and>
            road (city_map m4) n name = Some (cs @ cs)"
    using d4 f(1) by (auto simp: set2 g4 f(3))
  obtain n cs where p: "(n, cs) \<in> set nb" using ne by (cases nb) auto
  then have "cs \<noteq> []" using f(2) by auto
  then have "cs @ cs \<noteq> cs" by simp
  then have "road (city_map m4) name n \<noteq> road ?g name n" using all p by auto
  then have neq: "road (city_map m4) \<noteq> road ?g" by auto
  have l1: "last (undo_stack m1) = ?c"
      "fetch (heap m1) (last (undo_stack m1)) = RemoveCityCommand name ?R"
    by (simp_all add: u1 h1)
  have l3: "last (undo_stack m3) = ?c" by (simp add: u3)
  have l3': "\<exists>nb2. fetch (heap m3) (last (undo_stack m3)) =
                  RemoveCityCommand name (?R @ captured name nb2) \<and>
                length nb2 = length nb"
    using len2 by (auto simp: u3 h3)
  show ?thesis using r1 r2 r3 r4 l1 l3 l3' all neq by blast
qed

theorem remove_city_redo_accumulates_witness:
  "valid [(''X'', [(''Y'', [5]), (''Z'', [3])]), (''Y'', [(''X'', [5])]), (''Z'', [(''X'', [3])])] \<and>
   road [(''X'', [(''Y'', [5]), (''Z'', [3])]), (''Y'', [(''X'', [5])]), (''Z'', [(''X'', [3])])]
     ''X'' ''X'' = None \<and>
   map_of [(''X'', [(''Y'', [5]), (''Z'', [3])]), (''Y'', [(''X'', [5])]), (''Z'', [(''X'', [3::int])])]
     ''X'' = Some [(''Y'', [5]), (''Z'', [3])] \<and>
   road (city_map (snd (manager_undo (snd (manager_redo (snd (manager_undo (snd (execute_command
     (RemoveCityCommand ''X'' 0)
     \<lparr>city_map = [(''X'', [(''Y'', [5]), (''Z'', [3])]), (''Y'', [(''X'', [5])]),
                   (''Z'', [(''X'', [3])])],
      undo_stack = [], redo_stack = [], history = [], current_history_index = - 1,
      heap = (\<lambda>r. []), next_ref = 1\<rparr>)))))))))
     ''X'' ''Y'' = Some [5, 5] \<and>
   road (city_map (snd (manager_undo (snd (manager_redo (snd (manager_undo (snd (execute_command
     (RemoveCityCommand ''X'' 0)
     \<lparr>city_map = [(''X'', [(''Y'', [5]), (''Z'', [3])]), (''Y'', [(''X'', [5])]),
                   (''Z'', [(''X'', [3])])],
      undo_stack = [], redo_stack = [], history = [], current_history_index = - 1,
      heap = (\<lambda>r. []), next_ref = 1\<rparr>)))))))))
     ''Z'' ''X'' = Some [3, 3]"
proof -
  let ?g = "[(''X'', [(''Y'', [5]), (''Z'', [3])]), (''Y'', [(''X'', [5])]), (''Z'', [(''X'', [3::int])])]"
  let ?m = "\<lparr>city_map = ?g, undo_stack = [], redo_stack = [], history = [],
             current_history_index = - 1, heap = (\<lambda>r. []), next_ref = 1\<rparr>"
  let ?s1 = "execute_command (RemoveCityCommand ''X'' 0) ?m"
  let ?s2 = "manager_undo (snd ?s1)"
  let ?s3 = "manager_redo (snd ?s2)"
  let ?s4 = "manager_undo (snd ?s3)"
  have v: "valid (city_map ?m)" using valid_scenario by simp
  have ns: "road (city_map ?m) ''X'' ''X'' = None" by (simp add: road_def)
  have nb: "map_of (city_map ?m) ''X'' = Some [(''Y'', [5]), (''Z'', [3])]" by simp
  have ne: "[(''Y'', [5::int]), (''Z'', [3])] \<noteq> []" by simp
  have fr: "heap ?m 0 = []" by simp
  have "\<forall>(n, cs) \<in> set [(''Y'', [5::int]), (''Z'', [3])].
            road (city_map ?m) ''X'' n = Some cs \<and>
            road (city_map (snd ?s4)) ''X'' n = Some (cs @ cs) \<and>
            road (city_map (snd ?s4)) n ''X'' = Some (cs @ cs)"
    using remove_city_redo_accumulates [OF v ns nb ne fr, of "fst ?s1" "snd ?s1" "fst ?s2" "snd ?s2"
        "fst ?s3" "snd ?s3" "fst ?s4" "snd ?s4"]
    by simp
  then have "road (city_map (snd ?s4)) ''X'' ''Y'' = Some [5, 5] \<and>
             road (city_map (snd ?s4)) ''Z'' ''X'' = Some [3, 3]"
    by simp
  then show ?thesis using v ns nb by simp
qed

text \<open>
  The list of the command is the list inside the records of the history. After
  \<^verbatim>\<open>execute_command\<close>, \<^verbatim>\<open>undo\<close> and \<^verbatim>\<open>redo\<close> of a city removal, the history is the one after the
  \<^verbatim>\<open>undo\<close> with one snapshot appended, and the entry that the \<^verbatim>\<open>undo\<close> appended, written with
  \<^verbatim>\<open>json.dump\<close>, shows the captured road once before the \<^verbatim>\<open>redo\<close> and twice after it.
\<close>

lemma redo_lengthens_shared_list:
  "(case new_remove_city_command ''X''
           (new_manager [(''X'', [(''Y'', [5])]), (''Y'', [(''X'', [5])])]) of
      (cmd, m0) \<Rightarrow>
        let m1 = snd (execute_command cmd m0);
            m2 = snd (manager_undo m1);
            m3 = snd (manager_redo m2)
        in history m3 = history m2 @ [snapshot m3] \<and>
           dict_get (case json_of_obj (heap m2) (history m2 ! 2) of JDict d \<Rightarrow> d | _ \<Rightarrow> [])
             ''redo_stack'' JNull =
             JList [JDict [(''type'', JStr ''RemoveCityCommand''), (''name'', JStr ''X''),
                           (''roads'', JList [JList [JStr ''X'', JStr ''Y'', JList [JInt 5]]])]] \<and>
           dict_get (case json_of_obj (heap m3) (history m3 ! 2) of JDict d \<Rightarrow> d | _ \<Rightarrow> [])
             ''redo_stack'' JNull =
             JList [JDict [(''type'', JStr ''RemoveCityCommand''), (''name'', JStr ''X''),
                           (''roads'', JList [JList [JStr ''X'', JStr ''Y'', JList [JInt 5]],
                                              JList [JStr ''X'', JStr ''Y'', JList [JInt 5]]])]])"
  by code_simp

section \<open>Properties of saving and loading\<close>

text \<open>
  Claim C8. A map without a version tag that stores a bare scalar cost, such as
  \<^verbatim>\<open>{"A": {"B": 5}}\<close>, is read with the scalar turned into a one-element list:
  \<^verbatim>\<open>get_roads_from_city("A")\<close> is then \<^verbatim>\<open>[("B", [5])]\<close>. This holds for \<^verbatim>\<open>from_dict\<close> on any
  prior map, and for \<^verbatim>\<open>load_from_file\<close> on a document whose one history entry has that map
  as its \<^verbatim>\<open>map_state\<close>.
\<close>

theorem legacy_scalar_cost:
  "from_dict (JDict [(a, JDict [(b, JInt n)])]) g = (Inr (), Some [(a, [(b, [n])])]) \<and>
   get_roads_from_city a [(a, [(b, [n])])] = [(b, [n])] \<and>
   load_from_file loads
     (Some (JDict [(''history'',
                    JList [JDict [(''map_state'', JDict [(a, JDict [(b, JInt n)])])]])])) m =
     (True, Some (m\<lparr>history := [ODict [(''map_state'', ODict [(a, ODict [(b, OInt n)])])]],
                     current_history_index := 0, city_map := [(a, [(b, [n])])],
                     undo_stack := [], redo_stack := []\<rparr>))"
proof -
  have v: "dict_get [(a, JDict [(b, JInt n)])] ''_version'' (JStr ''1.0'') \<noteq> JStr ''1.2''"
    by (simp add: dict_get_def)
  have f: "from_dict (JDict [(a, JDict [(b, JInt n)])]) g' = (Inr (), Some [(a, [(b, [n])])])" for g'
    using v by (simp add: from_dict_def put_road_def)
  have r: "get_roads_from_city a [(a, [(b, [n])])] = [(b, [n])]"
    by (simp add: get_roads_from_city_def)
  have l: "load_from_file loads
           (Some (JDict [(''history'',
                          JList [JDict [(''map_state'', JDict [(a, JDict [(b, JInt n)])])]])])) m =
         (True, Some (m\<lparr>history := [ODict [(''map_state'', ODict [(a, ODict [(b, OInt n)])])]],
                        current_history_index := 0, city_map := [(a, [(b, [n])])],
                        undo_stack := [], redo_stack := []\<rparr>))"
    by (simp add: load_from_file_def dict_get_def py_get_def f deserialize_commands_def
          set_timeline_def set_city_map_def parsed_map_state_def share_entry_def Let_def)
  show ?thesis using f r l by simp
qed

theorem legacy_scalar_cost_witness:
  "from_dict (JDict [(''A'', JDict [(''B'', JInt 5)])]) (Some []) =
     (Inr (), Some [(''A'', [(''B'', [5])])]) \<and>
   get_roads_from_city ''A'' [(''A'', [(''B'', [5])])] = [(''B'', [5])] \<and>
   get_roads_from_city ''A'' (city_map (the (snd (load_from_file (map_of [])
           (Some (JDict [(''history'',
                          JList [JDict [(''map_state'', JDict [(''A'', JDict [(''B'', JInt 5)])])]])]))
           (new_manager []))))) = [(''B'', [5])]"
  using legacy_scalar_cost [of "''A''" "''B''" 5 "Some []" "map_of []" "new_manager []"]
  by (simp add: get_roads_from_city_def)

text \<open>
  A \<^verbatim>\<open>map_state\<close> that is a string is parsed: with the empty dictionary written as the
  string \<^verbatim>\<open>"{}"\<close>, the load returns \<^verbatim>\<open>True\<close> with an empty map and empty stacks.
\<close>

lemma load_string_map_state:
  "loads ''{}'' = Some (JDict []) \<Longrightarrow>
   load_from_file loads
     (Some (JDict [(''history'', JList [JDict [(''map_state'', JStr ''{}'')]])])) m =
     (True, Some (m\<lparr>history := [ODict [(''map_state'', OStr ''{}'')]],
                     current_history_index := 0, city_map := [],
                     undo_stack := [], redo_stack := []\<rparr>))"
  by (simp add: load_from_file_def dict_get_def py_get_def deserialize_commands_def from_dict_def
        set_timeline_def set_city_map_def parsed_map_state_def share_entry_def Let_def)

text \<open>
  A history that is not a list, or a cursor that is not an integer: the method returns
  \<^verbatim>\<open>False\<close> when the one cannot be indexed by the other, and the fields then hold values
  that the typed state cannot.
\<close>

lemma load_untyped_timeline:
  "load_from_file loads (Some (JDict [(''history'', JInt 5)])) m = (False, None)"
  "load_from_file loads
     (Some (JDict [(''history'', JList [JDict []]), (''current_index'', JStr ''0'')])) m =
     (False, None)"
  "load_from_file loads
     (Some (JDict [(''history'', JDict [(''a'', JDict [])]), (''current_index'', JStr ''a'')])) m =
     (True, None)"
  by (simp_all add: load_from_file_def dict_get_def set_timeline_def parsed_map_state_def
        from_dict_def set_city_map_def deserialize_commands_def Let_def)

lemma not_dict_cases: "\<not> is_dict j \<Longrightarrow> (\<And>d. j \<noteq> JDict d)"
  by (cases j) auto









subsection \<open>Save, then load\<close>

lemma json_of_obj_of_json [simp]: "json_of_obj h (obj_of_json j) = j"
  by (induction j) (auto simp: list.map_comp prod.map_comp comp_def intro!: map_idI)

lemma those_ints_comp [simp]: "those (map (int_of_json \<circ> JInt) cs) = Some cs"
  by (induction cs) simp_all

lemma those_ints: "those (map int_of_json (map JInt cs)) = Some cs"
  by simp

lemma costs_of_json_list: "costs_of_json (JList (map JInt cs)) = Some cs"
  by (simp add: those_ints)

lemma road_of_json_inverse: "road_of_json (road_to_json r) = Some r"
  by (cases r) (simp add: road_to_json_def those_ints)

lemma those_roads_comp [simp]: "those (map (road_of_json \<circ> road_to_json) rs) = Some rs"
  by (induction rs) (simp_all add: road_of_json_inverse)

lemma deserialize_command_inverse:
  "deserialize_command (json_of_obj h (command_to_dict c)) = Command (fetch h c)"
  by (cases c)
     (simp_all add: deserialize_command_def str_field_def int_field_def dict_get_def)

lemma adopt_inverse:
  assumes "adopt (fetch h c) (json_of_obj h (command_to_dict c)) h0 n = (c1, item, h1, n1)"
  shows "item = command_to_dict c1" "fetch h1 c1 = fetch h c" "n \<le> n1"
    "\<forall>k<n. h1 k = h0 k" "\<forall>r\<in>set_command c1. r < n1"
  using assms by (cases c; auto simp: share_roads_def)+

lemma fetch_cong:
  "\<forall>r\<in>set_command c. r < n \<Longrightarrow> \<forall>k<n. h' k = h k \<Longrightarrow> fetch h' c = fetch h c"
  by (cases c) simp_all

lemma collect_commands_inverse:
  "\<exists>cs' h' n'.
     collect_commands (map (\<lambda>c. json_of_obj h (command_to_dict c)) cs) h0 n =
       Some (cs', map command_to_dict cs', h', n') \<and>
     n \<le> n' \<and> (\<forall>k<n. h' k = h0 k) \<and> map (fetch h') cs' = map (fetch h) cs \<and>
     (\<forall>c\<in>set cs'. \<forall>r\<in>set_command c. r < n')"
proof (induction cs arbitrary: h0 n)
  case Nil then show ?case by simp
next
  case (Cons c cs)
  obtain c1 item h1 n1
    where a: "adopt (fetch h c) (json_of_obj h (command_to_dict c)) h0 n = (c1, item, h1, n1)"
    by (cases "adopt (fetch h c) (json_of_obj h (command_to_dict c)) h0 n") auto
  note f = adopt_inverse[OF a]
  from Cons.IH[of h1 n1] obtain cs' h' n'
    where c: "collect_commands (map (\<lambda>c. json_of_obj h (command_to_dict c)) cs) h1 n1 =
               Some (cs', map command_to_dict cs', h', n')"
      and le: "n1 \<le> n'" and k: "\<forall>k<n1. h' k = h1 k"
      and m: "map (fetch h') cs' = map (fetch h) cs"
      and b: "\<forall>c\<in>set cs'. \<forall>r\<in>set_command c. r < n'" by blast
  have r: "collect_commands (map (\<lambda>c. json_of_obj h (command_to_dict c)) (c # cs)) h0 n =
             Some (c1 # cs', map command_to_dict (c1 # cs'), h', n')"
    by (simp add: deserialize_command_inverse a c f(1))
  have c1: "fetch h' c1 = fetch h c"
    using fetch_cong[OF f(5) k] f(2) by simp
  have b1: "\<forall>r\<in>set_command c1. r < n'" using f(5) le by auto
  have k0: "\<forall>k<n. h' k = h0 k" using k f(3) f(4) by auto
  have "n \<le> n'" using f(3) le by simp
  then show ?case using r c1 b1 k0 m b by auto
qed

lemma update_new: "k \<notin> fst ` set al \<Longrightarrow> AList.update k v al = al @ [(k, v)]"
  by (induction al) auto

lemma map_entry_last:
  "k \<notin> fst ` set al \<Longrightarrow> AList.map_entry k f (al @ [(k, v)]) = al @ [(k, f v)]"
  by (induction al) auto

lemma fill_neighbors_inverse:
  assumes "city \<notin> fst ` set g" "distinct (map fst (acc @ nb))"
  shows "fill_neighbors city (map (\<lambda>(neighbor, cs). (neighbor, JList (map JInt cs))) nb)
           (g @ [(city, acc)]) = Some (g @ [(city, acc @ nb)])"
  using assms
proof (induction nb arbitrary: acc)
  case Nil then show ?case by simp
next
  case (Cons p nb)
  obtain n cs where p: "p = (n, cs)" by (cases p)
  have n: "n \<notin> fst ` set acc" using Cons.prems(2) p by auto
  have "put_road city n cs (g @ [(city, acc)]) = g @ [(city, acc @ [(n, cs)])]"
    using Cons.prems(1) n by (simp add: put_road_def map_entry_last update_new)
  moreover have "distinct (map fst ((acc @ [(n, cs)]) @ nb))" using Cons.prems(2) p by simp
  ultimately show ?case
    using Cons.IH[of "acc @ [(n, cs)]"] Cons.prems(1) by (simp add: p costs_of_json_list)
qed

lemma load_cities_v12_inverse:
  assumes "distinct (map fst (acc @ g))" "list_all (\<lambda>(city, nb). distinct (map fst nb)) g"
  shows "load_cities_v12 (cities_to_json g) (Some acc) = (Inr (), Some (acc @ g))"
  using assms
proof (induction g arbitrary: acc)
  case Nil then show ?case by (simp add: cities_to_json_def)
next
  case (Cons p g)
  obtain city nb where p: "p = (city, nb)" by (cases p)
  have c: "city \<notin> fst ` set acc" using Cons.prems(1) p by auto
  have d: "distinct (map fst nb)" using Cons.prems(2) p by simp
  have u: "AList.update city [] acc = acc @ [(city, [])]" using c by (rule update_new)
  have f: "fill_neighbors city (map (\<lambda>(neighbor, cs). (neighbor, JList (map JInt cs))) nb)
             (acc @ [(city, [])]) = Some (acc @ [(city, [] @ nb)])"
    using c d by (intro fill_neighbors_inverse) simp_all
  have "distinct (map fst ((acc @ [(city, nb)]) @ g))" using Cons.prems(1) p by simp
  moreover have "list_all (\<lambda>(city, nb). distinct (map fst nb)) g" using Cons.prems(2) by simp
  ultimately have "load_cities_v12 (cities_to_json g) (Some (acc @ [(city, nb)])) =
      (Inr (), Some ((acc @ [(city, nb)]) @ g))" by (rule Cons.IH)
  then show ?case using u f by (simp add: p cities_to_json_def)
qed

lemma from_dict_inverse:
  "keys_unique g \<Longrightarrow> from_dict (get_safe_state g) g0 = (Inr (), Some g)"
  using load_cities_v12_inverse[of "[]" g]
  by (simp add: from_dict_def get_safe_state_def dict_get_def keys_unique_def cities_to_json_def)

lemma load_save:
  assumes "keys_unique (city_map m)"
  shows "\<exists>us rs h n.
     load_from_file loads (Some (save_to_file created m)) m0 =
       (True, Some (m0\<lparr>history := [ODict [(''map_state'', obj_of_json (get_safe_state (city_map m))),
                                          (''undo_stack'', serialize_commands us),
                                          (''redo_stack'', serialize_commands rs)]],
                       current_history_index := 0,
                       city_map := city_map m, undo_stack := us, redo_stack := rs,
                       heap := h, next_ref := n\<rparr>)) \<and>
     map (fetch h) us = map (fetch (heap m)) (undo_stack m) \<and>
     map (fetch h) rs = map (fetch (heap m)) (redo_stack m)"
proof -
  let ?h = "heap m"
  let ?enc = "\<lambda>c. json_of_obj ?h (command_to_dict c)"
  let ?U = "JList (map ?enc (undo_stack m))"
  let ?R = "JList (map ?enc (redo_stack m))"
  let ?state = "[(''map_state'', get_safe_state (city_map m)), (''undo_stack'', ?U),
                 (''redo_stack'', ?R)]"
  have s: "json_of_obj ?h (snapshot m) = JDict ?state"
    by (simp add: snapshot_def serialize_commands_def comp_def)
  obtain d where g: "get_safe_state (city_map m) = JDict d"
    by (simp add: get_safe_state_def)
  have fd: "from_dict (JDict d) g0 = (Inr (), Some (city_map m))" for g0
    using from_dict_inverse[OF assms, of g0] by (simp add: g)
  have pm: "parsed_map_state loads ?state = Some (JDict d)"
    by (simp add: parsed_map_state_def dict_get_def g)
  let ?m1 = "m0\<lparr>history := [obj_of_json (JDict ?state)], current_history_index := 0\<rparr>"
  let ?m2 = "?m1\<lparr>city_map := city_map m\<rparr>"
  from collect_commands_inverse[of ?h "undo_stack m" "heap m0" "next_ref m0"]
  obtain us hu nu
    where cu: "collect_commands (map ?enc (undo_stack m)) (heap m0) (next_ref m0) =
                 Some (us, map command_to_dict us, hu, nu)"
      and mu: "map (fetch hu) us = map (fetch ?h) (undo_stack m)"
      and bu: "\<forall>c\<in>set us. \<forall>r\<in>set_command c. r < nu" by blast
  from collect_commands_inverse[of ?h "redo_stack m" hu nu]
  obtain rs hr nr
    where cr: "collect_commands (map ?enc (redo_stack m)) hu nu =
                 Some (rs, map command_to_dict rs, hr, nr)"
      and kr: "\<forall>k<nu. hr k = hu k"
      and mr: "map (fetch hr) rs = map (fetch ?h) (redo_stack m)" by blast
  have mu': "map (fetch hr) us = map (fetch ?h) (undo_stack m)"
  proof -
    have "fetch hr c = fetch hu c" if "c \<in> set us" for c
      using fetch_cong[of c nu hr hu] bu kr that by blast
    then have "map (fetch hr) us = map (fetch hu) us" by simp
    then show ?thesis using mu by simp
  qed
  let ?m3 = "share_entry ''undo_stack'' (OList (map command_to_dict us))
               (?m2\<lparr>heap := hu, next_ref := nu, undo_stack := us\<rparr>)"
  have du: "deserialize_commands ?U (Some ?m2) =
              Inr (Some (us, OList (map command_to_dict us), ?m2\<lparr>heap := hu, next_ref := nu\<rparr>))"
    by (simp add: deserialize_commands_def cu)
  have dr: "deserialize_commands ?R (Some ?m3) =
              Inr (Some (rs, OList (map command_to_dict rs), ?m3\<lparr>heap := hr, next_ref := nr\<rparr>))"
    by (simp add: deserialize_commands_def cr share_entry_def Let_def)
  have l: "load_from_file loads (Some (save_to_file created m)) m0 =
             (True, Some (share_entry ''redo_stack'' (OList (map command_to_dict rs))
                            (?m3\<lparr>heap := hr, next_ref := nr, redo_stack := rs\<rparr>)))"
    unfolding load_from_file_def save_to_file_def s
    by (simp add: dict_get_def py_get_def set_timeline_def set_city_map_def pm fd du dr Let_def
             del: obj_of_json.simps)
  have e: "share_entry ''redo_stack'' (OList (map command_to_dict rs))
             (?m3\<lparr>heap := hr, next_ref := nr, redo_stack := rs\<rparr>) =
           m0\<lparr>history := [ODict [(''map_state'', obj_of_json (get_safe_state (city_map m))),
                                 (''undo_stack'', serialize_commands us),
                                 (''redo_stack'', serialize_commands rs)]],
              current_history_index := 0,
              city_map := city_map m, undo_stack := us, redo_stack := rs,
              heap := hr, next_ref := nr\<rparr>"
    by (simp add: share_entry_def Let_def serialize_commands_def)
  show ?thesis using l e mu' mr by metis
qed

text \<open>
  Claim C5. Loading the document that \<^verbatim>\<open>save_to_file\<close> writes for a manager, into any
  manager, returns \<^verbatim>\<open>True\<close> and gives a manager with the same \<^verbatim>\<open>get_cities()\<close>, the same
  \<^verbatim>\<open>get_all_roads()\<close> and undo and redo stacks of the same sizes: the map is the saved one,
  and the commands on both stacks are the saved ones, with lists of their own that hold what
  the saved lists held. The one entry of the loaded history is the snapshot of the loaded
  state. The hypothesis says that the map is a dictionary of dictionaries.
\<close>

theorem save_load_round_trip:
  assumes "keys_unique (city_map m)"
  shows "\<exists>m'. load_from_file loads (Some (save_to_file created m)) m0 = (True, Some m') \<and>
           get_cities (city_map m') = get_cities (city_map m) \<and>
           get_all_roads (city_map m') = get_all_roads (city_map m) \<and>
           length (undo_stack m') = length (undo_stack m) \<and>
           length (redo_stack m') = length (redo_stack m) \<and>
           city_map m' = city_map m \<and>
           map (fetch (heap m')) (undo_stack m') = map (fetch (heap m)) (undo_stack m) \<and>
           map (fetch (heap m')) (redo_stack m') = map (fetch (heap m)) (redo_stack m) \<and>
           history m' = [snapshot m'] \<and> current_history_index m' = 0"
proof -
  from load_save[OF assms, of loads created m0]
  obtain us rs h n where
    l: "load_from_file loads (Some (save_to_file created m)) m0 =
       (True, Some (m0\<lparr>history := [ODict [(''map_state'', obj_of_json (get_safe_state (city_map m))),
                                          (''undo_stack'', serialize_commands us),
                                          (''redo_stack'', serialize_commands rs)]],
                       current_history_index := 0,
                       city_map := city_map m, undo_stack := us, redo_stack := rs,
                       heap := h, next_ref := n\<rparr>))"
    and u: "map (fetch h) us = map (fetch (heap m)) (undo_stack m)"
    and r: "map (fetch h) rs = map (fetch (heap m)) (redo_stack m)" by blast
  have lu: "length us = length (undo_stack m)" using u by (metis length_map)
  have lr: "length rs = length (redo_stack m)" using r by (metis length_map)
  show ?thesis using l u r lu lr by (simp add: snapshot_def)
qed

theorem save_load_round_trip_witness:
  "keys_unique [(''X'', [(''Y'', [5])]), (''Y'', [(''X'', [5])])] \<and>
   get_cities (city_map (the (snd (load_from_file (map_of [])
     (Some (save_to_file ''2024-01-01T00:00:00''
        \<lparr>city_map = [(''X'', [(''Y'', [5])]), (''Y'', [(''X'', [5])])],
         undo_stack = [AddRoadCommand ''X'' ''Y'' 5],
         redo_stack = [RemoveCityCommand ''Z'' 0],
         history = [], current_history_index = - 1,
         heap = (\<lambda>r. [])(0 := [(''Z'', ''X'', [3])]), next_ref = 1\<rparr>))
     (new_manager []))))) = [''X'', ''Y''] \<and>
   map (fetch (heap (the (snd (load_from_file (map_of [])
     (Some (save_to_file ''2024-01-01T00:00:00''
        \<lparr>city_map = [(''X'', [(''Y'', [5])]), (''Y'', [(''X'', [5])])],
         undo_stack = [AddRoadCommand ''X'' ''Y'' 5],
         redo_stack = [RemoveCityCommand ''Z'' 0],
         history = [], current_history_index = - 1,
         heap = (\<lambda>r. [])(0 := [(''Z'', ''X'', [3])]), next_ref = 1\<rparr>))
     (new_manager []))))))
     (redo_stack (the (snd (load_from_file (map_of [])
     (Some (save_to_file ''2024-01-01T00:00:00''
        \<lparr>city_map = [(''X'', [(''Y'', [5])]), (''Y'', [(''X'', [5])])],
         undo_stack = [AddRoadCommand ''X'' ''Y'' 5],
         redo_stack = [RemoveCityCommand ''Z'' 0],
         history = [], current_history_index = - 1,
         heap = (\<lambda>r. [])(0 := [(''Z'', ''X'', [3])]), next_ref = 1\<rparr>))
     (new_manager []))))) = [RemoveCityCommand ''Z'' [(''Z'', ''X'', [3])]]"
proof -
  let ?m = "\<lparr>city_map = [(''X'', [(''Y'', [5::int])]), (''Y'', [(''X'', [5])])],
         undo_stack = [AddRoadCommand ''X'' ''Y'' 5],
         redo_stack = [RemoveCityCommand ''Z'' 0],
         history = [], current_history_index = - 1,
         heap = (\<lambda>r. [])(0 := [(''Z'', ''X'', [3])]), next_ref = 1\<rparr>"
  have k: "keys_unique (city_map ?m)" by (simp add: keys_unique_def)
  from save_load_round_trip [OF k, of "map_of []" "''2024-01-01T00:00:00''" "new_manager []"]
  show ?thesis using k by (auto simp: get_cities_def)
qed

text \<open>
  A loaded \<^verbatim>\<open>RemoveCityCommand\<close> has the list of its record in the document as its
  \<^verbatim>\<open>roads\<close>: the entry of the history and the command on the stack hold the same list.
\<close>

lemma load_shares_roads:
  "(case load_from_file (map_of [])
      (Some (JDict [(''history'', JList [JDict [(''map_state'', JDict []),
         (''undo_stack'', JList [JDict [(''type'', JStr ''RemoveCityCommand''), (''name'', JStr ''X''),
            (''roads'', JList [JList [JStr ''X'', JStr ''Y'', JList [JInt 5]]])]])]])]))
      (new_manager []) of
      (r, m) \<Rightarrow>
        r = True \<and>
        map_option undo_stack m = Some [RemoveCityCommand ''X'' 0] \<and>
        map_option (\<lambda>m. heap m 0) m = Some [(''X'', ''Y'', [5])] \<and>
        map_option next_ref m = Some 1 \<and>
        map_option history m =
          Some [ODict [(''map_state'', ODict []),
                       (''undo_stack'', OList [ODict [(''type'', OStr ''RemoveCityCommand''),
                          (''name'', OStr ''X''), (''roads'', ORoads 0)]])]])"
  by code_simp

section \<open>The hypotheses hold in reachable states\<close>

lemma map_fst_map_value: "map fst (map (\<lambda>(c, nb). (c, f nb)) g) = map fst g"
  by (induction g) auto

lemma distinct_put_road: "distinct (map fst g) \<Longrightarrow> distinct (map fst (put_road a b cs g))"
  by (simp add: put_road_def AList.distinct_map_entry)

lemma distinct_del_road: "distinct (map fst g) \<Longrightarrow> distinct (map fst (del_road a b g))"
  by (simp add: del_road_def AList.distinct_map_entry)

lemma distinct_add_city: "distinct (map fst g) \<Longrightarrow> distinct (map fst (snd (add_city name g)))"
  by (simp add: add_city_def AList.distinct_update)

lemma distinct_map_value:
  "distinct (map fst g) \<Longrightarrow> distinct (map fst (map (\<lambda>(c, nb). (c, f nb)) g))"
  by (simp only: map_fst_map_value)

lemma distinct_remove_city: "distinct (map fst g) \<Longrightarrow> distinct (map fst (snd (remove_city name g)))"
  unfolding remove_city_def Let_def
  by (auto simp del: map_map intro!: AList.distinct_delete distinct_map_value)

lemma distinct_rename_city:
  "distinct (map fst g) \<Longrightarrow> distinct (map fst (snd (rename_city old new g)))"
  unfolding rename_city_def Let_def
  by (auto simp del: map_map split: option.splits
        intro!: AList.distinct_delete AList.distinct_update distinct_map_value)

lemma distinct_add_road: "distinct (map fst g) \<Longrightarrow> distinct (map fst (snd (add_road a b c g)))"
  by (auto simp: add_road_def Let_def distinct_put_road split: option.splits)

lemma distinct_del_both: "distinct (map fst g) \<Longrightarrow> distinct (map fst (snd (del_both a b g)))"
  by (auto simp: del_both_def Let_def distinct_del_road split: option.splits)

lemma distinct_remove_road:
  "distinct (map fst g) \<Longrightarrow> distinct (map fst (snd (remove_road a b co g)))"
  by (auto simp: remove_road_def Let_def distinct_put_road distinct_del_both split: option.splits)

lemma distinct_update_road_cost:
  "distinct (map fst g) \<Longrightarrow> distinct (map fst (snd (update_road_cost a b old new g)))"
  by (auto simp: update_road_cost_def Let_def distinct_put_road split: option.splits)

lemma inner_distinct_rename_city:
  "inner_distinct g \<Longrightarrow> inner_distinct (snd (rename_city old new g))"
proof (cases "map_of g old")
  case None then show "inner_distinct g \<Longrightarrow> ?thesis" by (simp add: rename_city_def)
next
  case (Some nb)
  assume i: "inner_distinct g"
  have d: "distinct (map fst nb)" using i Some by (auto simp: inner_distinct_def)
  have f: "distinct (map fst (case map_of x old of None \<Rightarrow> x
            | Some cs \<Rightarrow> AList.update new cs (AList.delete old x)))" if "distinct (map fst x)"
    for x :: neighbors
    using that by (simp add: AList.distinct_update AList.distinct_delete split: option.splits)
  show ?thesis
    using i d Some
    by (auto simp: rename_city_def Let_def
          intro!: inner_distinct_map_value inner_distinct_update inner_distinct_delete f)
qed

lemma inner_distinct_del_both: "inner_distinct g \<Longrightarrow> inner_distinct (snd (del_both a b g))"
  by (auto simp: del_both_def Let_def inner_distinct_del_road split: option.splits)

lemma inner_distinct_remove_road:
  "inner_distinct g \<Longrightarrow> inner_distinct (snd (remove_road a b co g))"
  by (auto simp: remove_road_def Let_def inner_distinct_put_road inner_distinct_del_both
        split: option.splits)

lemma inner_distinct_update_road_cost:
  "inner_distinct g \<Longrightarrow> inner_distinct (snd (update_road_cost a b old new g))"
  by (auto simp: update_road_cost_def Let_def inner_distinct_put_road split: option.splits)

lemma inner_distinct_apply_op: "inner_distinct g \<Longrightarrow> inner_distinct (snd (apply_op opn g))"
  by (cases opn)
     (simp_all add: inner_distinct_add_city inner_distinct_remove_city inner_distinct_rename_city
        inner_distinct_add_road inner_distinct_remove_road inner_distinct_update_road_cost)

lemma distinct_apply_op: "distinct (map fst g) \<Longrightarrow> distinct (map fst (snd (apply_op opn g)))"
  by (cases opn)
     (simp_all add: distinct_add_city distinct_remove_city distinct_rename_city
        distinct_add_road distinct_remove_road distinct_update_road_cost)


lemma plain_set_pair:
  "plain g \<Longrightarrow> road g' = set_pair a b v (road g) \<Longrightarrow> a \<noteq> b \<Longrightarrow> v \<noteq> Some [] \<Longrightarrow> plain g'"
  by (auto simp: plain_def set_pair_def)

lemma plain_same: "plain g \<Longrightarrow> road g' = road g \<Longrightarrow> plain g'"
  by (simp add: plain_def)

lemma plain_add_city: "plain g \<Longrightarrow> plain (snd (add_city name g))"
  by (simp add: plain_def road_add_city)

lemma plain_remove_city: "plain g \<Longrightarrow> plain (snd (remove_city name g))"
  by (simp add: plain_def road_remove_city)

lemma plain_rename_city:
  assumes "symmetric g" "plain g" shows "plain (snd (rename_city old new g))"
proof (cases "map_of g old")
  case None then show ?thesis using assms(2) by (simp add: rename_city_def)
next
  case (Some nb)
  show ?thesis
  proof (cases "has_key new g")
    case True then show ?thesis using assms(2) Some by (simp add: rename_city_def)
  next
    case False
    show ?thesis
      using assms(2) by (simp add: plain_def road_rename_city[OF assms(1) Some False])
  qed
qed

lemma plain_add_road:
  assumes "symmetric g" "plain g" "a \<noteq> b" shows "plain (snd (add_road a b c g))"
proof (cases "has_key a g \<and> has_key b g")
  case False then show ?thesis using assms(2) by (auto simp: add_road_def)
next
  case True
  from add_road_result[OF assms(1) _ _ assms(3), of c] True
  obtain G where "add_road a b c g = (Inr True, G)"
    "road G = set_pair a b (Some (costs g a b @ [c])) (road g)" by blast
  then show ?thesis using plain_set_pair[OF assms(2) _ assms(3)] by simp
qed

lemma del_both_result:
  assumes "a \<noteq> b" "road g b a = Some cs"
  shows "\<exists>G. del_both a b g = (Inr True, G) \<and> road G = set_pair a b None (road g)"
proof -
  have "road (del_road a b g) b a = Some cs" using assms by (simp add: road_del_road)
  then have "del_both a b g = (Inr True, del_road b a (del_road a b g))"
    by (simp add: del_both_def)
  moreover have "road (del_road b a (del_road a b g)) = set_pair a b None (road g)"
    using assms(1) by (auto simp: fun_eq_iff set_pair_def road_del_road)
  ultimately show ?thesis by blast
qed

lemma remove_road_trivial:
  "\<not> (has_key a g \<and> has_key b g) \<or> road g a b = None \<Longrightarrow> snd (remove_road a b co g) = g"
  by (auto simp: remove_road_def)

lemma plain_remove_road:
  assumes "symmetric g" "plain g" shows "plain (snd (remove_road a b co g))"
proof (cases "\<not> (has_key a g \<and> has_key b g) \<or> road g a b = None")
  case True
  then show ?thesis using assms(2) by (simp only: remove_road_trivial)
next
  case False
  then obtain cs where k: "has_key a g" "has_key b g" and ab: "road g a b = Some cs" by auto
  have ne: "a \<noteq> b" using ab assms(2) by (auto simp: plain_def)
  have ba: "road g b a = Some cs" using ab assms(1) by (simp add: symmetric_def)
  show ?thesis
  proof (cases co)
    case None
    from del_both_result[OF ne ba]
    obtain G where "del_both a b g = (Inr True, G)" "road G = set_pair a b None (road g)" by blast
    then show ?thesis
      using None k ab plain_set_pair[OF assms(2) _ ne, of G None] by (simp add: remove_road_def)
  next
    case (Some c)
    show ?thesis
    proof (cases "c \<in> set cs")
      case False
      then show ?thesis using Some k ab assms(2) by (simp add: remove_road_def)
    next
      case True
      from remove_road_result[OF k ne ab ba True]
      obtain G where "remove_road a b (Some c) g = (Inr True, G)"
        "road G = set_pair a b (if remove1 c cs = [] then None else Some (remove1 c cs)) (road g)"
        by blast
      then show ?thesis
        using Some plain_set_pair[OF assms(2) _ ne, of G] by simp
    qed
  qed
qed

lemma update_road_cost_trivial:
  "\<not> (has_key a g \<and> has_key b g) \<or> road g a b = None \<Longrightarrow>
   snd (update_road_cost a b old new g) = g"
  by (auto simp: update_road_cost_def)

lemma plain_update_road_cost:
  assumes "symmetric g" "plain g" shows "plain (snd (update_road_cost a b old new g))"
proof (cases "\<not> (has_key a g \<and> has_key b g) \<or> road g a b = None")
  case True
  then show ?thesis using assms(2) by (simp only: update_road_cost_trivial)
next
  case False
  then obtain cs where k: "has_key a g" "has_key b g" and ab: "road g a b = Some cs" by auto
  have ne: "a \<noteq> b" using ab assms(2) by (auto simp: plain_def)
  have ba: "road g b a = Some cs" using ab assms(1) by (simp add: symmetric_def)
  have cne: "cs \<noteq> []" using ab assms(2) by (auto simp: plain_def)
  show ?thesis
  proof (cases "old \<in> set cs")
    case False
    then show ?thesis using k ab assms(2) by (simp add: update_road_cost_def)
  next
    case True
    from update_road_cost_result[OF k ne ab ba True, of new]
    obtain G where "update_road_cost a b old new g = (Inr True, G)"
      "road G = set_pair a b (Some (cs[list_index cs old := new])) (road g)" by blast
    then show ?thesis
      using cne plain_set_pair[OF assms(2) _ ne, of G] by simp
  qed
qed

lemma plain_apply_op:
  "symmetric g \<Longrightarrow> plain g \<Longrightarrow> loop_free opn \<Longrightarrow> plain (snd (apply_op opn g))"
  by (cases opn)
     (simp_all add: plain_add_city plain_remove_city plain_rename_city plain_add_road
        plain_remove_road plain_update_road_cost)

text \<open>
  From the empty map, operations that add no road from a city to itself reach only valid
  maps without such a road, whose keys are unique: the hypotheses of the laws above hold in
  every state the application reaches through the graph store.
\<close>

lemma reachable_invariants:
  assumes "list_all loop_free ops"
    and "symmetric g" "plain g" "inner_distinct g" "distinct (map fst g)"
  shows "symmetric (run ops g) \<and> plain (run ops g) \<and> inner_distinct (run ops g) \<and>
         distinct (map fst (run ops g))"
  using assms unfolding run_def
proof (induction ops arbitrary: g)
  case Nil then show ?case by simp
next
  case (Cons opn ops)
  have "list_all loop_free ops" "loop_free opn" using Cons.prems(1) by simp_all
  then show ?case
    using Cons.IH[of "snd (apply_op opn g)"] Cons.prems(2-5)
    by (simp add: symmetric_apply_op plain_apply_op inner_distinct_apply_op distinct_apply_op)
qed

lemma keys_unique_iff: "keys_unique g \<longleftrightarrow> distinct (map fst g) \<and> inner_distinct g"
proof -
  have "list_all (\<lambda>(city, nb). distinct (map fst nb)) g \<longleftrightarrow> inner_distinct g"
    if d: "distinct (map fst g)"
  proof
    assume l: "list_all (\<lambda>(city, nb). distinct (map fst nb)) g"
    show "inner_distinct g"
      unfolding inner_distinct_def
    proof (intro allI impI)
      fix a nb assume "map_of g a = Some nb"
      then have "(a, nb) \<in> set g" by (rule map_of_SomeD)
      then show "distinct (map fst nb)" using l by (auto simp: list_all_iff)
    qed
  next
    assume i: "inner_distinct g"
    show "list_all (\<lambda>(city, nb). distinct (map fst nb)) g"
      unfolding list_all_iff
    proof clarify
      fix a nb assume "(a, nb) \<in> set g"
      then have "map_of g a = Some nb" using d by simp
      then show "distinct (map fst nb)" using i by (auto simp: inner_distinct_def)
    qed
  qed
  then show ?thesis by (auto simp: keys_unique_def)
qed

lemma reachable_valid:
  assumes "list_all loop_free ops"
  shows "valid (run ops []) \<and> (\<forall>a. road (run ops []) a a = None) \<and> keys_unique (run ops [])"
proof -
  have "symmetric []" "plain []" "inner_distinct []" "distinct (map fst ([] :: cities))"
    by (simp_all add: symmetric_empty plain_def inner_distinct_def road_def)
  from reachable_invariants[OF assms this]
  show ?thesis by (simp add: valid_def plain_def keys_unique_iff)
qed

end
